theory Spec2Isabelle
  imports Main "HOL-Library.Word" "HOL-Library.Sublist"
begin

section \<open>ExportEPUB: the EPUB packaging pipeline of Sigil\<close>

text \<open>
  The development follows \<^verbatim>\<open>src/Sigil/Exporters/ExportEPUB.cpp\<close>. The file talks to
  four outside parties: the zip library (minizip on zlib), Qt's file classes, the book
  model and the font obfuscator. None of them is part of the file, so each is modelled by
  what the exporter can observe of it: every call is recorded in a log of the world, and
  the value the call returns is read from the world. An exception is a value \<open>Inl e\<close>;
  the world travels with it, since the files and the archive stay as the failing call
  left them.

  A \<^verbatim>\<open>QString\<close> is a \<^typ>\<open>string\<close>; \<^verbatim>\<open>toUtf8\<close> and \<^verbatim>\<open>toStdString\<close> are the
  identity on it, and a buffer of \<^verbatim>\<open>char\<close> is a \<^typ>\<open>string\<close> as well.
\<close>

subsection \<open>Exceptions\<close>

text \<open>
  \<^verbatim>\<open>CannotOpenFile\<close> carries \<^verbatim>\<open>errinfo_file_fullpath\<close> and, where the source adds
  it, \<^verbatim>\<open>errinfo_file_errorstring\<close>; \<^verbatim>\<open>CannotStoreFile\<close> carries
  \<^verbatim>\<open>errinfo_file_fullpath\<close>. \<open>Thrown\<close> is an exception of a collaborator.
\<close>

datatype error =
    CannotOpenFile string "string option"
  | CannotStoreFile string
  | Thrown string

subsection \<open>Constants\<close>

definition BUFF_SIZE :: nat where
  "BUFF_SIZE = 8192"

definition ENCRYPTION_XML_FILE_NAME :: string where
  "ENCRYPTION_XML_FILE_NAME = ''encryption.xml''"

definition METAINF_FOLDER_SUFFIX :: string where
  "METAINF_FOLDER_SUFFIX = ''/META-INF''"

definition EPUB_MIME_TYPE :: string where
  "EPUB_MIME_TYPE = ''application/epub+zip''"

text \<open>The constants of \<^verbatim>\<open>zlib.h\<close> that the file uses, with zlib's values.\<close>

definition Z_OK :: int where
  "Z_OK = 0"

definition Z_DEFLATED :: int where
  "Z_DEFLATED = 8"

definition Z_NO_COMPRESSION :: int where
  "Z_NO_COMPRESSION = 0"

definition Z_DEFAULT_COMPRESSION :: int where
  "Z_DEFAULT_COMPRESSION = - 1"

definition Z_DEFAULT_STRATEGY :: int where
  "Z_DEFAULT_STRATEGY = 0"

subsection \<open>The staged tree and the book\<close>

text \<open>
  An entry below a directory, as \<^verbatim>\<open>QDirIterator\<close> and \<^verbatim>\<open>QFile\<close> show it:
  \<open>comps\<close> are the names on the way from the directory down to the entry;
  \<open>is_file\<close> and \<open>is_readable\<close> are what the filters \<^verbatim>\<open>QDir::Files\<close> and
  \<^verbatim>\<open>QDir::Readable\<close> test; \<open>byte_size\<close> is the uncompressed size; \<open>opens\<close> tells
  whether \<^verbatim>\<open>QFile::open(ReadOnly)\<close> succeeds; \<open>read_at k\<close> is what the \<open>k\<close>-th call
  of \<^verbatim>\<open>QFile::read(buff, BUFF_SIZE)\<close> gives: the \<^verbatim>\<open>qint64\<close> it returns (the number of
  bytes, 0 at the end, -1 on an error) and the bytes it stores at the start of \<^verbatim>\<open>buff\<close>.
\<close>

record node =
  comps :: "string list"
  is_file :: bool
  is_readable :: bool
  byte_size :: nat
  opens :: bool
  read_at :: "nat \<Rightarrow> int \<times> string"

record font_resource =
  ObfuscationAlgorithm :: string
  RelativePathToRoot :: string

text \<open>
  What the getters of \<^verbatim>\<open>m_Book\<close> return during one export.
\<close>

record book =
  HasObfuscatedFonts :: bool
  UUIDIdentifierValue :: string
  PublicationIdentifier :: string
  FontResources :: "font_resource list"

subsection \<open>The zip library\<close>

text \<open>
  The arguments of \<^verbatim>\<open>zipOpenNewFileInZip4_64\<close> that are not pointers (the source
  passes \<^verbatim>\<open>NULL\<close> for \<^verbatim>\<open>zipfi\<close>, both extra fields, the comment and the
  password); \<open>zip_method\<close> is the parameter \<^verbatim>\<open>method\<close>.
\<close>

record new_file_args =
  filename :: string
  size_extrafield_local :: nat
  size_extrafield_global :: nat
  zip_method :: int
  level :: int
  raw :: int
  windowBits :: int
  memLevel :: int
  strategy :: int
  crcForCrypting :: nat
  versionMadeBy :: nat
  flagBase :: nat
  zip64 :: int

text \<open>
  The calls of the zip library. \<open>OpenNewFileInZip64\<close> has the file name, the two extra
  field sizes, the method, the level and the zip64 flag of \<^verbatim>\<open>zipOpenNewFileInZip64\<close>;
  \<open>WriteInFileInZip\<close> has the buffer and the length of \<^verbatim>\<open>zipWriteInFileInZip\<close>.
\<close>

datatype zcall =
    Open64 string
  | OpenNewFileInZip64 string nat nat int int int
  | OpenNewFileInZip4_64 new_file_args
  | WriteInFileInZip string "32 word"
  | CloseFileInZip
  | Close

subsection \<open>The world\<close>

text \<open>
  What the world answers: \<open>tree d\<close> lists the entries below the directory \<open>d\<close>, at all
  depths, in the order of the iteration; \<open>zopen_ok\<close> tells whether \<^verbatim>\<open>zipOpen64\<close>
  returns a handle; \<open>zrcs\<close> are the codes that the next calls of the zip library return,
  one for each call, \<open>Z_OK\<close> once the list is used up; \<open>obf_throws\<close> gives the exception
  of \<^verbatim>\<open>FontObfuscation::ObfuscateFile\<close>, if it raises one; \<open>tmpfile_opens\<close>,
  \<open>tmpfile_name\<close> and \<open>tmpfile_error\<close> belong to the \<^verbatim>\<open>QTemporaryFile\<close>;
  \<open>copy_ok\<close> is the result of \<^verbatim>\<open>QFile::copy\<close>; \<open>throws c\<close> is the exception of the
  collaborator \<open>c\<close>, if it raises one; \<open>fresh_temp\<close> is the path of the next temporary
  folder; \<open>freed_memory\<close> are the bytes that stand behind the pointer \<^verbatim>\<open>mime_data\<close>
  when line 135 reads them (see \<open>SaveFolderAsEpubToLocation\<close>).

  What the world records: \<open>zlog\<close>, the calls of the zip library with the codes they
  returned (1 for the handle of \<^verbatim>\<open>zipOpen64\<close>, 0 for \<^verbatim>\<open>NULL\<close>); \<open>obf_log\<close>, the calls
  of \<^verbatim>\<open>ObfuscateFile\<close> (path, algorithm, key); \<open>copy_log\<close>, the calls of
  \<^verbatim>\<open>QFile::copy\<close> (source, target, result); \<open>call_log\<close>, the collaborators called;
  \<open>temp_folders\<close>, the temporary folders that exist.
\<close>

record world =
  tree :: "string \<Rightarrow> node list"
  zopen_ok :: bool
  zrcs :: "int list"
  obf_throws :: "string \<Rightarrow> string \<Rightarrow> string \<Rightarrow> error option"
  tmpfile_opens :: bool
  tmpfile_name :: string
  tmpfile_error :: string
  copy_ok :: bool
  throws :: "string \<Rightarrow> error option"
  fresh_temp :: string
  freed_memory :: string
  zlog :: "(zcall \<times> int) list"
  obf_log :: "(string \<times> string \<times> string) list"
  copy_log :: "(string \<times> string \<times> bool) list"
  call_log :: "string list"
  temp_folders :: "string set"

type_synonym 'a outcome = "(error + 'a) \<times> world"

definition zipOpen64 :: "string \<Rightarrow> world \<Rightarrow> bool \<times> world" where
  "zipOpen64 path w =
     (zopen_ok w, w\<lparr>zlog := zlog w @ [(Open64 path, if zopen_ok w then 1 else 0)]\<rparr>)"

text \<open>A call that returns a code takes the next code of the world.\<close>

definition zret :: "zcall \<Rightarrow> world \<Rightarrow> int \<times> world" where
  "zret c w =
     (case zrcs w of
        [] \<Rightarrow> (Z_OK, w\<lparr>zlog := zlog w @ [(c, Z_OK)]\<rparr>)
      | r # rs \<Rightarrow> (r, w\<lparr>zrcs := rs, zlog := zlog w @ [(c, r)]\<rparr>))"

definition zipOpenNewFileInZip64 ::
  "string \<Rightarrow> nat \<Rightarrow> nat \<Rightarrow> int \<Rightarrow> int \<Rightarrow> int \<Rightarrow> world \<Rightarrow> int \<times> world" where
  "zipOpenNewFileInZip64 name sl sg m l z = zret (OpenNewFileInZip64 name sl sg m l z)"

definition zipOpenNewFileInZip4_64 :: "new_file_args \<Rightarrow> world \<Rightarrow> int \<times> world" where
  "zipOpenNewFileInZip4_64 a = zret (OpenNewFileInZip4_64 a)"

definition zipWriteInFileInZip :: "string \<Rightarrow> 32 word \<Rightarrow> world \<Rightarrow> int \<times> world" where
  "zipWriteInFileInZip buf len = zret (WriteInFileInZip buf len)"

definition zipCloseFileInZip :: "world \<Rightarrow> int \<times> world" where
  "zipCloseFileInZip = zret CloseFileInZip"

definition zipClose :: "world \<Rightarrow> int \<times> world" where
  "zipClose = zret Close"

subsection \<open>Strings and paths of Qt\<close>

text \<open>
  \<^verbatim>\<open>QString::remove(const QString &)\<close> removes every occurrence of the given string,
  searching on from the place of the last removal; an empty string removes nothing.
\<close>

function remove_all :: "string \<Rightarrow> string \<Rightarrow> string" where
  "remove_all pat [] = []"
| "remove_all pat (c # cs) =
     (if pat \<noteq> [] \<and> prefix pat (c # cs)
      then remove_all pat (drop (length pat) (c # cs))
      else c # remove_all pat cs)"
  by pat_completeness auto
termination
  by (relation "measure (\<lambda>(pat, s). length s)") (auto simp: neq_Nil_conv)

text \<open>The loop \<^verbatim>\<open>while (relpath.startsWith("/")) relpath = relpath.remove(0, 1)\<close>.\<close>

fun strip_slashes :: "string \<Rightarrow> string" where
  "strip_slashes [] = []"
| "strip_slashes (c # cs) = (if c = CHR ''/'' then strip_slashes cs else c # cs)"

text \<open>The length of a C string: the bytes before the first NUL.\<close>

definition strlen :: "string \<Rightarrow> 32 word" where
  "strlen s = of_nat (length (takeWhile (\<lambda>c. c \<noteq> CHR 0x00) s))"

text \<open>
  The path of an entry below a directory, with \<^verbatim>\<open>/\<close> between the names, as Qt writes
  paths on every platform.
\<close>

fun join_path :: "string list \<Rightarrow> string" where
  "join_path [] = []"
| "join_path [c] = c"
| "join_path (c # cs) = c @ CHR ''/'' # join_path cs"

definition rel_path :: "node \<Rightarrow> string" where
  "rel_path n = join_path (comps n)"

text \<open>
  \<^verbatim>\<open>QDirIterator::filePath\<close> and \<^verbatim>\<open>QDirIterator::fileName\<close> of an entry. The
  iterator puts a slash between the directory and the entry unless the path of the
  directory ends in one.
\<close>

definition filePath :: "string \<Rightarrow> node \<Rightarrow> string" where
  "filePath dir n =
     (if dir \<noteq> [] \<and> last dir = CHR ''/'' then dir @ rel_path n
      else dir @ CHR ''/'' # rel_path n)"

definition fileName :: "node \<Rightarrow> string" where
  "fileName n = (if comps n = [] then [] else last (comps n))"

text \<open>
  The entries that an iterator with the filters
  \<^verbatim>\<open>QDir::Files|QDir::NoDotAndDotDot|QDir::Readable|QDir::Hidden\<close> and the flag
  \<^verbatim>\<open>QDirIterator::Subdirectories\<close> visits: the readable files, hidden ones too.
\<close>

definition QDirIterator :: "node list \<Rightarrow> node list" where
  "QDirIterator ns = filter (\<lambda>n. is_file n \<and> is_readable n) ns"

subsection \<open>SaveFolderAsEpubToLocation\<close>

text \<open>
  The arguments of the call of \<^verbatim>\<open>zipOpenNewFileInZip4_64\<close> for a file (line 153):
  \<^verbatim>\<open>(zfile, relpath, NULL, NULL, 0, NULL, 0, NULL, Z_DEFLATED, 8, 0, 15, 8,
  Z_DEFAULT_STRATEGY, NULL, 0, 0, 0x800, 0)\<close>.
\<close>

definition file_args :: "string \<Rightarrow> new_file_args" where
  "file_args relpath =
     \<lparr>filename = relpath, size_extrafield_local = 0, size_extrafield_global = 0,
      zip_method = Z_DEFLATED, level = 8, raw = 0, windowBits = 15, memLevel = 8,
      strategy = Z_DEFAULT_STRATEGY, crcForCrypting = 0, versionMadeBy = 0,
      flagBase = 0x800, zip64 = 0\<rparr>"

text \<open>
  The loop \<^verbatim>\<open>while ((read = dfile.read(buff, BUFF_SIZE)) > 0)\<close> of lines 169 to 176.
  \<^verbatim>\<open>read\<close> is an \<^verbatim>\<open>unsigned int\<close>: the \<^verbatim>\<open>qint64\<close> that \<^verbatim>\<open>QFile::read\<close> returns is
  cut to 32 bits, and the comparison with 0 is unsigned. \<open>k\<close> counts the calls of
  \<^verbatim>\<open>read\<close>. Nothing bounds the number of rounds, so the loop has fuel, and \<open>None\<close>
  says that it did not come to an end. When the write fails, the source closes the
  file, the entry and the archive and throws. The result of a loop that ends is the
  last value of \<^verbatim>\<open>read\<close>.
\<close>

fun copy_loop ::
  "nat \<Rightarrow> node \<Rightarrow> string \<Rightarrow> nat \<Rightarrow> string \<Rightarrow> world \<Rightarrow> (32 word) outcome option" where
  "copy_loop 0 n relpath k buff w = None"
| "copy_loop (Suc fuel) n relpath k buff w =
     (case read_at n k of (ret, data) \<Rightarrow>
        let buff' = data @ drop (length data) buff;
            read = (word_of_int ret :: 32 word)
        in if 0 < read then
             (case zipWriteInFileInZip buff' read w of (rc, w1) \<Rightarrow>
                if rc \<noteq> Z_OK
                then Some (Inl (CannotStoreFile relpath),
                           snd (zipClose (snd (zipCloseFileInZip w1))))
                else copy_loop fuel n relpath (Suc k) buff' w1)
           else Some (Inr read, w))"

text \<open>
  Lines 146 to 149: \<^verbatim>\<open>relpath\<close> is the file path with every occurrence of
  \<^verbatim>\<open>fullfolderpath\<close> removed and the leading slashes stripped.
\<close>

definition relpath_of :: "string \<Rightarrow> node \<Rightarrow> string" where
  "relpath_of fullfolderpath n =
     strip_slashes (remove_all fullfolderpath (filePath fullfolderpath n))"

text \<open>
  The body of the loop over the files (lines 145 to 188), for the entry \<open>n\<close> that the
  iterator stands on.
\<close>

definition add_file :: "nat \<Rightarrow> string \<Rightarrow> node \<Rightarrow> world \<Rightarrow> unit outcome option" where
  "add_file fuel fullfolderpath n w =
     (let relpath = relpath_of fullfolderpath n
      in case zipOpenNewFileInZip4_64 (file_args relpath) w of (rc, w1) \<Rightarrow>
        if rc \<noteq> Z_OK
        then Some (Inl (CannotStoreFile relpath), snd (zipClose w1))
        else if \<not> opens n
        then Some (Inl (CannotOpenFile (fileName n) None),
                   snd (zipClose (snd (zipCloseFileInZip w1))))
        else (case copy_loop fuel n relpath 0 (replicate BUFF_SIZE (CHR 0x00)) w1 of
                None \<Rightarrow> None
              | Some (Inl e, w2) \<Rightarrow> Some (Inl e, w2)
              | Some (Inr read, w2) \<Rightarrow>
                  if read < 0
                  then Some (Inl (CannotStoreFile relpath),
                             snd (zipClose (snd (zipCloseFileInZip w2))))
                  else (case zipCloseFileInZip w2 of (rc', w3) \<Rightarrow>
                          if rc' \<noteq> Z_OK
                          then Some (Inl (CannotStoreFile relpath), snd (zipClose w3))
                          else Some (Inr (), w3))))"

fun add_files :: "nat \<Rightarrow> string \<Rightarrow> node list \<Rightarrow> world \<Rightarrow> unit outcome option" where
  "add_files fuel fullfolderpath [] w = Some (Inr (), w)"
| "add_files fuel fullfolderpath (n # ns) w =
     (case add_file fuel fullfolderpath n w of
        None \<Rightarrow> None
      | Some (Inl e, w1) \<Rightarrow> Some (Inl e, w1)
      | Some (Inr u, w1) \<Rightarrow> add_files fuel fullfolderpath ns w1)"

text \<open>
  The function as it is compiled where \<^verbatim>\<open>Q_OS_WIN32\<close> is not defined;
  \<^verbatim>\<open>QDir::toNativeSeparators\<close> is the identity there.

  Line 134 keeps in \<^verbatim>\<open>mime_data\<close> the pointer \<^verbatim>\<open>constData()\<close> of the temporary
  \<^verbatim>\<open>QByteArray\<close> that \<^verbatim>\<open>EPUB_MIME_TYPE.toUtf8()\<close> returns. The array is destroyed at
  the end of that statement, so \<^verbatim>\<open>strlen\<close> and \<^verbatim>\<open>zipWriteInFileInZip\<close> of line 135
  read freed memory: what they find there is not fixed by the program. In the model
  \<^verbatim>\<open>mime_data\<close> is \<open>freed_memory\<close> of the world, the bytes that stand behind the pointer
  at that moment.
\<close>

definition SaveFolderAsEpubToLocation ::
  "nat \<Rightarrow> string \<Rightarrow> string \<Rightarrow> world \<Rightarrow> unit outcome option" where
  "SaveFolderAsEpubToLocation fuel fullfolderpath fullfilepath w =
     (case zipOpen64 fullfilepath w of (zfile, w1) \<Rightarrow>
        if \<not> zfile then Some (Inl (CannotOpenFile fullfilepath None), w1)
        else (case zipOpenNewFileInZip64 ''mimetype'' 0 0 Z_NO_COMPRESSION 0 0 w1 of
          (rc, w2) \<Rightarrow>
            if rc \<noteq> Z_OK
            then Some (Inl (CannotStoreFile ''mimetype''), snd (zipClose w2))
            else (let mime_data = freed_memory w2
                  in case zipWriteInFileInZip mime_data (strlen mime_data) w2 of
                    (rc', w3) \<Rightarrow>
                      if rc' \<noteq> Z_OK
                      then Some (Inl (CannotStoreFile ''mimetype''),
                                 snd (zipClose (snd (zipCloseFileInZip w3))))
                      else (let w4 = snd (zipCloseFileInZip w3)
                            in case add_files fuel fullfolderpath
                                      (QDirIterator (tree w4 fullfolderpath)) w4 of
                                 None \<Rightarrow> None
                               | Some (Inl e, w5) \<Rightarrow> Some (Inl e, w5)
                               | Some (Inr u, w5) \<Rightarrow> Some (Inr (), snd (zipClose w5))))))"

subsection \<open>CreateEncryptionXML, CreatePublication and ObfuscateFonts\<close>

text \<open>
  A collaborator whose code is not in the file (the OPF, the book, \<^verbatim>\<open>Utility::CopyFiles\<close>,
  \<^verbatim>\<open>EncryptionXmlWriter::WriteXML\<close>): the call is recorded, and it raises what the world
  says.
\<close>

definition collaborator :: "string \<Rightarrow> world \<Rightarrow> unit outcome" where
  "collaborator c w =
     (case throws w c of
        Some e \<Rightarrow> (Inl e, w\<lparr>call_log := call_log w @ [c]\<rparr>)
      | None \<Rightarrow> (Inr (), w\<lparr>call_log := call_log w @ [c]\<rparr>))"

text \<open>\<^verbatim>\<open>QFile::copy\<close> returns a \<^verbatim>\<open>bool\<close> and raises nothing.\<close>

definition QFile_copy :: "string \<Rightarrow> string \<Rightarrow> world \<Rightarrow> bool \<times> world" where
  "QFile_copy name newName w =
     (copy_ok w, w\<lparr>copy_log := copy_log w @ [(name, newName, copy_ok w)]\<rparr>)"

text \<open>
  Lines 195 to 214. The results of \<^verbatim>\<open>file.flush()\<close> and of \<^verbatim>\<open>QFile::copy\<close> are not
  looked at.
\<close>

definition CreateEncryptionXML :: "string \<Rightarrow> world \<Rightarrow> unit outcome" where
  "CreateEncryptionXML fullfolderpath w =
     (if \<not> tmpfile_opens w
      then (Inl (CannotOpenFile (tmpfile_name w) (Some (tmpfile_error w))), w)
      else (case collaborator ''EncryptionXmlWriter::WriteXML'' w of
              (Inl e, w1) \<Rightarrow> (Inl e, w1)
            | (Inr u, w1) \<Rightarrow>
                (case QFile_copy (tmpfile_name w1)
                        (fullfolderpath @ ''/'' @ ENCRYPTION_XML_FILE_NAME) w1 of
                   (copied, w2) \<Rightarrow> (Inr (), w2))))"

definition CreatePublication :: "book \<Rightarrow> string \<Rightarrow> world \<Rightarrow> unit outcome" where
  "CreatePublication m_Book fullfolderpath w =
     (case collaborator ''Utility::CopyFiles'' w of
        (Inl e, w1) \<Rightarrow> (Inl e, w1)
      | (Inr u, w1) \<Rightarrow>
          if HasObfuscatedFonts m_Book
          then CreateEncryptionXML (fullfolderpath @ METAINF_FOLDER_SUFFIX) w1
          else (Inr (), w1))"

text \<open>
  \<^verbatim>\<open>FontObfuscation::ObfuscateFile\<close> is not in the file: the call is recorded with its
  three arguments, and it raises what the world says.
\<close>

definition ObfuscateFile :: "string \<Rightarrow> string \<Rightarrow> string \<Rightarrow> world \<Rightarrow> unit outcome" where
  "ObfuscateFile filepath algorithm identifier w =
     (case obf_throws w filepath algorithm identifier of
        Some e \<Rightarrow> (Inl e, w\<lparr>obf_log := obf_log w @ [(filepath, algorithm, identifier)]\<rparr>)
      | None \<Rightarrow> (Inr (), w\<lparr>obf_log := obf_log w @ [(filepath, algorithm, identifier)]\<rparr>))"

text \<open>
  The \<^verbatim>\<open>foreach\<close> of lines 224 to 241. \<open>ADOBE_FONT_ALGO_ID\<close> is a constant of
  \<^verbatim>\<open>sigil_constants.h\<close>, which is not among the sources: it is a parameter.
\<close>

fun font_loop ::
  "string \<Rightarrow> string \<Rightarrow> string \<Rightarrow> string \<Rightarrow> font_resource list \<Rightarrow> world \<Rightarrow> unit outcome" where
  "font_loop ADOBE_FONT_ALGO_ID uuid_id main_id fullfolderpath [] w = (Inr (), w)"
| "font_loop ADOBE_FONT_ALGO_ID uuid_id main_id fullfolderpath (font_resource # rest) w =
     (let algorithm = ObfuscationAlgorithm font_resource
      in if algorithm = []
         then font_loop ADOBE_FONT_ALGO_ID uuid_id main_id fullfolderpath rest w
         else (let font_path = fullfolderpath @ ''/'' @ RelativePathToRoot font_resource
               in case (if algorithm = ADOBE_FONT_ALGO_ID
                        then ObfuscateFile font_path algorithm uuid_id w
                        else ObfuscateFile font_path algorithm main_id w) of
                    (Inl e, w1) \<Rightarrow> (Inl e, w1)
                  | (Inr u, w1) \<Rightarrow>
                      font_loop ADOBE_FONT_ALGO_ID uuid_id main_id fullfolderpath rest w1))"

definition ObfuscateFonts :: "string \<Rightarrow> book \<Rightarrow> string \<Rightarrow> world \<Rightarrow> unit outcome" where
  "ObfuscateFonts ADOBE_FONT_ALGO_ID m_Book fullfolderpath w =
     (let uuid_id = UUIDIdentifierValue m_Book;
          main_id = PublicationIdentifier m_Book;
          font_resources = FontResources m_Book
      in font_loop ADOBE_FONT_ALGO_ID uuid_id main_id fullfolderpath font_resources w)"

subsection \<open>WriteBook\<close>

text \<open>
  Modelled from the spec: the class \<^verbatim>\<open>TempFolder\<close> (\<^verbatim>\<open>Misc/TempFolder.h\<close>) is not among
  the sources. The spec says of it: the temporary directory is scoped, created at the
  start of export and removed on every exit path. So the constructor creates the folder
  whose path the world gives, \<^verbatim>\<open>GetPath\<close> returns that path, and the destructor removes
  the folder.
\<close>

definition TempFolder_create :: "world \<Rightarrow> string \<times> world" where
  "TempFolder_create w =
     (fresh_temp w, w\<lparr>temp_folders := insert (fresh_temp w) (temp_folders w)\<rparr>)"

definition TempFolder_remove :: "string \<Rightarrow> world \<Rightarrow> world" where
  "TempFolder_remove path w = w\<lparr>temp_folders := temp_folders w - {path}\<rparr>"

text \<open>Lines 94 to 100, the part of \<^verbatim>\<open>WriteBook\<close> in which \<^verbatim>\<open>tempfolder\<close> lives.\<close>

definition WriteBook_scope ::
  "nat \<Rightarrow> string \<Rightarrow> string \<Rightarrow> book \<Rightarrow> string \<Rightarrow> world \<Rightarrow> unit outcome option" where
  "WriteBook_scope fuel ADOBE_FONT_ALGO_ID m_FullFilePath m_Book path w =
     (case CreatePublication m_Book path w of
        (Inl e, w1) \<Rightarrow> Some (Inl e, w1)
      | (Inr u, w1) \<Rightarrow>
          (case (if HasObfuscatedFonts m_Book
                 then ObfuscateFonts ADOBE_FONT_ALGO_ID m_Book path w1
                 else (Inr (), w1)) of
             (Inl e, w2) \<Rightarrow> Some (Inl e, w2)
           | (Inr u, w2) \<Rightarrow> SaveFolderAsEpubToLocation fuel path m_FullFilePath w2))"

text \<open>
  \<^verbatim>\<open>tempfolder\<close> is a local object: its destructor runs when the function is left,
  by its end or by an exception.
\<close>

definition WriteBook ::
  "nat \<Rightarrow> string \<Rightarrow> string \<Rightarrow> book \<Rightarrow> world \<Rightarrow> unit outcome option" where
  "WriteBook fuel ADOBE_FONT_ALGO_ID m_FullFilePath m_Book w =
     (case (if HasObfuscatedFonts m_Book
            then collaborator ''OPFResource::EnsureUUIDIdentifierPresent'' w
            else (Inr (), w)) of
        (Inl e, w1) \<Rightarrow> Some (Inl e, w1)
      | (Inr u, w1) \<Rightarrow>
          (case collaborator ''OPFResource::AddSigilVersionMeta'' w1 of
             (Inl e, w2) \<Rightarrow> Some (Inl e, w2)
           | (Inr u, w2) \<Rightarrow>
               (case collaborator ''Book::SaveAllResourcesToDisk'' w2 of
                  (Inl e, w3) \<Rightarrow> Some (Inl e, w3)
                | (Inr u, w3) \<Rightarrow>
                    (case TempFolder_create w3 of
                       (path, w4) \<Rightarrow>
                         (case WriteBook_scope fuel ADOBE_FONT_ALGO_ID m_FullFilePath
                                 m_Book path w4 of
                            None \<Rightarrow> None
                          | Some (r, w5) \<Rightarrow> Some (r, TempFolder_remove path w5))))))"

subsection \<open>Reading the logs\<close>

text \<open>The calls that one run added to the log of the zip library.\<close>

definition calls_since :: "world \<Rightarrow> world \<Rightarrow> (zcall \<times> int) list" where
  "calls_since w w' = drop (length (zlog w)) (zlog w')"

text \<open>The names of the entries, in the order in which they were opened.\<close>

fun entry_names :: "(zcall \<times> int) list \<Rightarrow> string list" where
  "entry_names [] = []"
| "entry_names ((OpenNewFileInZip64 name sl sg m l z, rc) # cs) = name # entry_names cs"
| "entry_names ((OpenNewFileInZip4_64 a, rc) # cs) = filename a # entry_names cs"
| "entry_names (c # cs) = entry_names cs"

text \<open>The arguments of the entries that the loop over the files opened.\<close>

fun file_entries :: "(zcall \<times> int) list \<Rightarrow> new_file_args list" where
  "file_entries [] = []"
| "file_entries ((OpenNewFileInZip4_64 a, rc) # cs) = a # file_entries cs"
| "file_entries (c # cs) = file_entries cs"

text \<open>
  The bytes of the first entry: what the successful writes before the first
  \<^verbatim>\<open>zipCloseFileInZip\<close> took from their buffers.
\<close>

fun first_entry_content :: "(zcall \<times> int) list \<Rightarrow> string" where
  "first_entry_content [] = []"
| "first_entry_content ((WriteInFileInZip buf len, rc) # cs) =
     (if rc = Z_OK then take (unat len) buf else []) @ first_entry_content cs"
| "first_entry_content ((CloseFileInZip, rc) # cs) = []"
| "first_entry_content (c # cs) = first_entry_content cs"

text \<open>The calls of \<^verbatim>\<open>ObfuscateFile\<close> that one run made.\<close>

definition obf_calls_since :: "world \<Rightarrow> world \<Rightarrow> (string \<times> string \<times> string) list" where
  "obf_calls_since w w' = drop (length (obf_log w)) (obf_log w')"

subsection \<open>What the spec says of the fonts and of the paths\<close>

text \<open>
  The key selection in the words of the spec: no call for an empty tag, the UUID
  identifier for the Adobe algorithm, the publication identifier for every other tag.
\<close>

definition spec_font_calls ::
  "string \<Rightarrow> book \<Rightarrow> string \<Rightarrow> font_resource \<Rightarrow> (string \<times> string \<times> string) list" where
  "spec_font_calls ADOBE_FONT_ALGO_ID m_Book fullfolderpath f =
     (if ObfuscationAlgorithm f = [] then []
      else if ObfuscationAlgorithm f = ADOBE_FONT_ALGO_ID
      then [(fullfolderpath @ ''/'' @ RelativePathToRoot f, ObfuscationAlgorithm f,
             UUIDIdentifierValue m_Book)]
      else [(fullfolderpath @ ''/'' @ RelativePathToRoot f, ObfuscationAlgorithm f,
             PublicationIdentifier m_Book)])"

text \<open>\<open>occurs pat s\<close>: the string \<open>pat\<close> stands somewhere in \<open>s\<close>.\<close>

fun occurs :: "string \<Rightarrow> string \<Rightarrow> bool" where
  "occurs pat [] = (pat = [])"
| "occurs pat (c # cs) = (prefix pat (c # cs) \<or> occurs pat cs)"

text \<open>
  The names of an entry of a file system are not empty and hold no slash, and an entry
  has at least one name.
\<close>

definition wf_node :: "node \<Rightarrow> bool" where
  "wf_node n = (comps n \<noteq> [] \<and> list_all (\<lambda>c. c \<noteq> [] \<and> CHR ''/'' \<notin> set c) (comps n))"

subsection \<open>Worlds and trees to run the functions on\<close>

definition world0 :: world where
  "world0 =
     \<lparr>tree = (\<lambda>d. []), zopen_ok = True, zrcs = [], obf_throws = (\<lambda>p a k. None),
      tmpfile_opens = True, tmpfile_name = ''/tmp/qt_temp.a1'', tmpfile_error = [],
      copy_ok = True, throws = (\<lambda>c. None), fresh_temp = ''/tmp/Sigil/scratchpad/0'',
      freed_memory = ''application/epub+zip'',
      zlog = [], obf_log = [], copy_log = [], call_log = [], temp_folders = {}\<rparr>"

definition staged :: "node list \<Rightarrow> world" where
  "staged ns = world0\<lparr>tree := (\<lambda>d. ns)\<rparr>"

text \<open>A file of three bytes at the top of the tree.\<close>

definition node_opf :: node where
  "node_opf =
     \<lparr>comps = [''content.opf''], is_file = True, is_readable = True, byte_size = 3,
      opens = True, read_at = (\<lambda>k. if k = 0 then (3, ''opf'') else (0, []))\<rparr>"

text \<open>A file two folders down that cannot be opened.\<close>

definition node_locked :: node where
  "node_locked =
     \<lparr>comps = [''OEBPS'', ''Text'', ''ch1.xhtml''], is_file = True, is_readable = True,
      byte_size = 3, opens = False, read_at = (\<lambda>k. (0, []))\<rparr>"

text \<open>A file that the filter \<^verbatim>\<open>QDir::Readable\<close> leaves out.\<close>

definition node_unreadable :: node where
  "node_unreadable =
     \<lparr>comps = [''OEBPS'', ''secret.css''], is_file = True, is_readable = False,
      byte_size = 3, opens = False, read_at = (\<lambda>k. (0, []))\<rparr>"

text \<open>A file whose first read fails with -1; the next read reports the end.\<close>

definition node_badread :: node where
  "node_badread =
     \<lparr>comps = [''a.txt''], is_file = True, is_readable = True, byte_size = 3,
      opens = True, read_at = (\<lambda>k. if k = 0 then (- 1, []) else (0, []))\<rparr>"

text \<open>A file whose every read fails with -1.\<close>

definition node_stuck :: node where
  "node_stuck =
     \<lparr>comps = [''a.txt''], is_file = True, is_readable = True, byte_size = 3,
      opens = True, read_at = (\<lambda>k. (- 1, []))\<rparr>"

definition font_adobe :: font_resource where
  "font_adobe =
     \<lparr>ObfuscationAlgorithm = ''http://ns.adobe.com/pdf/enc#RC'',
      RelativePathToRoot = ''OEBPS/Fonts/a.ttf''\<rparr>"

definition font_idpf :: font_resource where
  "font_idpf =
     \<lparr>ObfuscationAlgorithm = ''http://www.idpf.org/2008/embedding'',
      RelativePathToRoot = ''OEBPS/Fonts/b.otf''\<rparr>"

definition font_plain :: font_resource where
  "font_plain = \<lparr>ObfuscationAlgorithm = [], RelativePathToRoot = ''OEBPS/Fonts/c.ttf''\<rparr>"

definition font_unknown :: font_resource where
  "font_unknown =
     \<lparr>ObfuscationAlgorithm = ''rot13'', RelativePathToRoot = ''OEBPS/Fonts/d.ttf''\<rparr>"

text \<open>A world in which \<^verbatim>\<open>ObfuscateFile\<close> raises for the algorithm \<^verbatim>\<open>rot13\<close>.\<close>

definition world_fontfail :: world where
  "world_fontfail =
     world0\<lparr>obf_throws :=
       (\<lambda>p a k. if a = ''rot13'' then Some (CannotOpenFile p None) else None)\<rparr>"

definition book0 :: book where
  "book0 =
     \<lparr>HasObfuscatedFonts = True, UUIDIdentifierValue = ''urn:uuid:ABCDEF'',
      PublicationIdentifier = ''isbn:123'',
      FontResources = [font_plain, font_adobe, font_idpf, font_unknown]\<rparr>"

text \<open>A file two folders down that is empty and opens.\<close>

definition node_ch1 :: node where
  "node_ch1 =
     \<lparr>comps = [''OEBPS'', ''Text'', ''ch1.xhtml''], is_file = True, is_readable = True,
      byte_size = 0, opens = True, read_at = (\<lambda>k. (0, []))\<rparr>"

text \<open>A file below a folder that is named as the staged directory \<^verbatim>\<open>/t\<close> is.\<close>

definition node_inner :: node where
  "node_inner =
     \<lparr>comps = [''a'', ''t'', ''b''], is_file = True, is_readable = True,
      byte_size = 0, opens = True, read_at = (\<lambda>k. (0, []))\<rparr>"


text \<open>The same, where the memory behind \<^verbatim>\<open>mime_data\<close> has been used again.\<close>

definition world_reused :: world where
  "world_reused = world0\<lparr>freed_memory := ''xyz''\<rparr>"

definition run_reused :: "unit outcome option" where
  "run_reused =
     SaveFolderAsEpubToLocation (Suc 0) ''/tmp/s'' ''/out/b.epub'' world_reused"

definition run_opf :: "unit outcome option" where
  "run_opf =
     SaveFolderAsEpubToLocation (Suc (Suc 0)) ''/tmp/s'' ''/out/b.epub'' (staged [node_opf])"

definition run_book :: "unit outcome option" where
  "run_book =
     SaveFolderAsEpubToLocation (Suc (Suc 0)) ''/tmp/s'' ''/out/b.epub''
       (staged [node_opf, node_ch1])"

definition run_hidden :: "unit outcome option" where
  "run_hidden =
     SaveFolderAsEpubToLocation (Suc (Suc 0)) ''/tmp/s'' ''/out/b.epub''
       (staged [node_opf, node_unreadable])"

definition run_badread :: "unit outcome option" where
  "run_badread =
     SaveFolderAsEpubToLocation (Suc (Suc 0)) ''/tmp/s'' ''/out/b.epub''
       (staged [node_badread])"

definition run_locked :: "unit outcome option" where
  "run_locked =
     SaveFolderAsEpubToLocation (Suc (Suc 0)) ''/tmp/s'' ''/out/b.epub''
       (staged [node_opf, node_locked])"

text \<open>A world in which \<^verbatim>\<open>QFile::copy\<close> fails.\<close>

definition world_nocopy :: world where
  "world_nocopy = world0\<lparr>copy_ok := False\<rparr>"

text \<open>
  Runs of the whole export, with the Adobe identifier of Sigil for the parameter
  \<open>ADOBE_FONT_ALGO_ID\<close>.
\<close>

definition run_export_nocopy :: "unit outcome option" where
  "run_export_nocopy =
     WriteBook (Suc 0) ''http://ns.adobe.com/pdf/enc#RC'' ''/out/b.epub'' book0 world_nocopy"

text \<open>A world in which \<^verbatim>\<open>zipOpen64\<close> returns no handle.\<close>

definition world_noarchive :: world where
  "world_noarchive = world0\<lparr>zopen_ok := False\<rparr>"

definition run_export_noarchive :: "unit outcome option" where
  "run_export_noarchive =
     WriteBook (Suc 0) ''http://ns.adobe.com/pdf/enc#RC'' ''/out/b.epub'' book0
       world_noarchive"

section \<open>The log of the zip library\<close>

lemmas zip_defs = zipOpenNewFileInZip64_def zipOpenNewFileInZip4_64_def
  zipWriteInFileInZip_def zipCloseFileInZip_def zipClose_def

lemma zret_zlog: "zlog (snd (zret c w)) = zlog w @ [(c, fst (zret c w))]"
  by (simp add: zret_def split: list.splits)

lemma zret_frame:
  "tree (snd (zret c w)) = tree w"
  "temp_folders (snd (zret c w)) = temp_folders w"
  "fresh_temp (snd (zret c w)) = fresh_temp w"
  "freed_memory (snd (zret c w)) = freed_memory w"
  by (simp_all add: zret_def split: list.splits)

lemma zret_cases:
  assumes "zret c w = (rc, w')"
  shows "zlog w' = zlog w @ [(c, rc)]" and "tree w' = tree w"
    and "temp_folders w' = temp_folders w" and "freed_memory w' = freed_memory w"
  using assms zret_zlog [of c w] zret_frame [of c w] by simp_all

lemma entry_names_append: "entry_names (xs @ ys) = entry_names xs @ entry_names ys"
  by (induction xs rule: entry_names.induct) simp_all

lemma file_entries_append: "file_entries (xs @ ys) = file_entries xs @ file_entries ys"
  by (induction xs rule: file_entries.induct) simp_all

lemma abort_zlog:
  "zlog (snd (zipClose (snd (zipCloseFileInZip w)))) =
     zlog w @ [(CloseFileInZip, fst (zipCloseFileInZip w)),
               (Close, fst (zipClose (snd (zipCloseFileInZip w))))]"
  by (simp add: zip_defs zret_zlog)

lemma copy_loop_log:
  "copy_loop fuel n rp k buff w = Some (r, w') \<Longrightarrow>
     \<exists>X. zlog w' = zlog w @ X \<and> file_entries X = [] \<and> entry_names X = [] \<and>
         tree w' = tree w \<and> temp_folders w' = temp_folders w"
proof (induction fuel arbitrary: k buff w)
  case 0
  then show ?case by simp
next
  case (Suc fuel)
  obtain ret data where rd: "read_at n k = (ret, data)" by (cases "read_at n k")
  define buff' where "buff' = data @ drop (length data) buff"
  define rd32 where "rd32 = (word_of_int ret :: 32 word)"
  show ?case
  proof (cases "0 < rd32")
    case False
    with Suc.prems rd show ?thesis by (simp add: rd32_def)
  next
    case True
    obtain rc w1 where wr: "zipWriteInFileInZip buff' rd32 w = (rc, w1)"
      by (cases "zipWriteInFileInZip buff' rd32 w")
    from wr have l1: "zlog w1 = zlog w @ [(WriteInFileInZip buff' rd32, rc)]"
      and f1: "tree w1 = tree w" "temp_folders w1 = temp_folders w"
      by (simp_all add: zipWriteInFileInZip_def zret_cases)
    show ?thesis
    proof (cases "rc = Z_OK")
      case True
      with Suc.prems rd \<open>0 < rd32\<close> wr
      have "copy_loop fuel n rp (Suc k) buff' w1 = Some (r, w')"
        by (simp add: rd32_def buff'_def)
      from Suc.IH [OF this] obtain X where
        "zlog w' = zlog w1 @ X" "file_entries X = []" "entry_names X = []"
        "tree w' = tree w1" "temp_folders w' = temp_folders w1" by blast
      with l1 f1 show ?thesis
        by (intro exI [of _ "(WriteInFileInZip buff' rd32, rc) # X"]) simp
    next
      case False
      with Suc.prems rd \<open>0 < rd32\<close> wr
      have "w' = snd (zipClose (snd (zipCloseFileInZip w1)))"
        by (auto simp add: rd32_def buff'_def)
      with l1 f1 show ?thesis
        by (simp add: abort_zlog) (simp add: zip_defs zret_frame)
    qed
  qed
qed


lemma add_file_log:
  assumes "add_file fuel d n w = Some (r, w')"
  shows "\<exists>rc X. zlog w' = zlog w @ (OpenNewFileInZip4_64 (file_args (relpath_of d n)), rc) # X \<and>
           file_entries X = [] \<and> entry_names X = [] \<and>
           tree w' = tree w \<and> temp_folders w' = temp_folders w"
proof -
  define rp where "rp = relpath_of d n"
  obtain rc w1 where op: "zipOpenNewFileInZip4_64 (file_args rp) w = (rc, w1)"
    by (cases "zipOpenNewFileInZip4_64 (file_args rp) w")
  then have l1: "zlog w1 = zlog w @ [(OpenNewFileInZip4_64 (file_args rp), rc)]"
    and f1: "tree w1 = tree w" "temp_folders w1 = temp_folders w"
    by (simp_all add: zipOpenNewFileInZip4_64_def zret_cases)
  have goal: "\<exists>X. zlog w' = zlog w1 @ X \<and> file_entries X = [] \<and> entry_names X = [] \<and>
           tree w' = tree w1 \<and> temp_folders w' = temp_folders w1"
  proof (cases "rc \<noteq> Z_OK")
    case True
    with assms op have "w' = snd (zipClose w1)"
      by (simp add: add_file_def rp_def Let_def)
    then show ?thesis by (simp add: zip_defs zret_zlog zret_frame)
  next
    case ok: False
    show ?thesis
    proof (cases "opens n")
      case False
      with assms op ok have "w' = snd (zipClose (snd (zipCloseFileInZip w1)))"
        by (simp add: add_file_def rp_def Let_def)
      then show ?thesis by (simp add: abort_zlog) (simp add: zip_defs zret_frame)
    next
      case True
      let ?c = "copy_loop fuel n rp 0 (replicate BUFF_SIZE (CHR 0x00)) w1"
      from assms op ok True obtain r2 w2 where c: "?c = Some (r2, w2)"
        by (cases ?c) (auto simp add: add_file_def rp_def Let_def)
      from copy_loop_log [OF c] obtain X where
        X: "zlog w2 = zlog w1 @ X" "file_entries X = []" "entry_names X = []"
          "tree w2 = tree w1" "temp_folders w2 = temp_folders w1" by blast
      show ?thesis
      proof (cases r2)
        case (Inl e)
        with assms op ok True c have "w' = w2"
          by (simp add: add_file_def rp_def Let_def)
        with X show ?thesis by simp
      next
        case (Inr rd)
        have nl: "\<not> rd < 0" by simp
        obtain rc3 w3 where cl: "zipCloseFileInZip w2 = (rc3, w3)"
          by (cases "zipCloseFileInZip w2")
        then have l3: "zlog w3 = zlog w2 @ [(CloseFileInZip, rc3)]"
          and f3: "tree w3 = tree w2" "temp_folders w3 = temp_folders w2"
          by (simp_all add: zipCloseFileInZip_def zret_cases)
        from assms op ok True c Inr cl have "w' = w3 \<or> w' = snd (zipClose w3)"
          by (auto simp add: add_file_def rp_def Let_def split: if_splits)
        then show ?thesis
        proof
          assume "w' = w3"
          with X l3 f3 show ?thesis
            by (intro exI [of _ "X @ [(CloseFileInZip, rc3)]"])
               (simp add: file_entries_append entry_names_append)
        next
          assume "w' = snd (zipClose w3)"
          with X l3 f3 show ?thesis
            by (intro exI [of _ "X @ [(CloseFileInZip, rc3), (Close, fst (zipClose w3))]"])
               (simp add: file_entries_append entry_names_append zip_defs zret_zlog zret_frame)
        qed
      qed
    qed
  qed
  then obtain X where "zlog w' = zlog w1 @ X" "file_entries X = []" "entry_names X = []"
    "tree w' = tree w1" "temp_folders w' = temp_folders w1" by blast
  with l1 f1 show ?thesis by (simp add: rp_def)
qed

lemma add_files_log:
  "add_files fuel d ns w = Some (r, w') \<Longrightarrow>
     \<exists>X. zlog w' = zlog w @ X \<and>
         prefix (file_entries X) (map (\<lambda>n. file_args (relpath_of d n)) ns) \<and>
         (r = Inr () \<longrightarrow> file_entries X = map (\<lambda>n. file_args (relpath_of d n)) ns) \<and>
         entry_names X = map filename (file_entries X) \<and>
         tree w' = tree w \<and> temp_folders w' = temp_folders w"
proof (induction ns arbitrary: w)
  case Nil
  then show ?case by auto
next
  case (Cons n ns)
  from Cons.prems obtain r1 w1 where a: "add_file fuel d n w = Some (r1, w1)"
    by (cases "add_file fuel d n w") auto
  from add_file_log [OF a] obtain rc X where
    X: "zlog w1 = zlog w @ (OpenNewFileInZip4_64 (file_args (relpath_of d n)), rc) # X"
      "file_entries X = []" "entry_names X = []"
      "tree w1 = tree w" "temp_folders w1 = temp_folders w" by blast
  let ?h = "(OpenNewFileInZip4_64 (file_args (relpath_of d n)), rc)"
  show ?case
  proof (cases r1)
    case (Inl e)
    with Cons.prems a have "w' = w1" "r = Inl e" by simp_all
    with X show ?thesis
      by (intro exI [of _ "?h # X"]) simp
  next
    case (Inr u)
    with Cons.prems a have "add_files fuel d ns w1 = Some (r, w')" by simp
    from Cons.IH [OF this] obtain Y where
      Y: "zlog w' = zlog w1 @ Y"
        "prefix (file_entries Y) (map (\<lambda>n. file_args (relpath_of d n)) ns)"
        "r = Inr () \<longrightarrow> file_entries Y = map (\<lambda>n. file_args (relpath_of d n)) ns"
        "entry_names Y = map filename (file_entries Y)"
        "tree w' = tree w1" "temp_folders w' = temp_folders w1" by blast
    with X show ?thesis
      by (intro exI [of _ "?h # X @ Y"])
         (simp add: file_entries_append entry_names_append)
  qed
qed

lemma zipOpen64_cases:
  assumes "zipOpen64 f w = (ok, w')"
  shows "zlog w' = zlog w @ [(Open64 f, if ok then 1 else 0)]" and "tree w' = tree w"
    and "temp_folders w' = temp_folders w" and "ok = zopen_ok w"
    and "freed_memory w' = freed_memory w"
  using assms by (auto simp: zipOpen64_def)

lemma SaveFolder_log:
  assumes "SaveFolderAsEpubToLocation fuel d f w = Some (r, w')"
  shows "\<exists>Y. zlog w' = zlog w @ Y \<and>
           prefix (file_entries Y) (map (\<lambda>n. file_args (relpath_of d n)) (QDirIterator (tree w d))) \<and>
           temp_folders w' = temp_folders w \<and>
           (r = Inr () \<longrightarrow> (\<exists>rc rc' X. Y =
              [(Open64 f, 1),
               (OpenNewFileInZip64 ''mimetype'' 0 0 Z_NO_COMPRESSION 0 0, Z_OK),
               (WriteInFileInZip (freed_memory w) (strlen (freed_memory w)), Z_OK),
               (CloseFileInZip, rc)] @ X @ [(Close, rc')] \<and>
              file_entries X = map (\<lambda>n. file_args (relpath_of d n)) (QDirIterator (tree w d)) \<and>
              entry_names X = map filename (file_entries X)))"
proof -
  let ?files = "map (\<lambda>n. file_args (relpath_of d n)) (QDirIterator (tree w d))"
  obtain ok w1 where o: "zipOpen64 f w = (ok, w1)" by (cases "zipOpen64 f w")
  note o1 = zipOpen64_cases [OF o]
  show ?thesis
  proof (cases ok)
    case False
    with assms o have "w' = w1" "r \<noteq> Inr ()"
      by (auto simp: SaveFolderAsEpubToLocation_def)
    with o1 False show ?thesis by simp
  next
    case ok: True
    let ?m = "OpenNewFileInZip64 ''mimetype'' 0 0 Z_NO_COMPRESSION 0 0"
    obtain rc2 w2 where m: "zret ?m w1 = (rc2, w2)" by (cases "zret ?m w1")
    note m2 = zret_cases [OF m]
    show ?thesis
    proof (cases "rc2 = Z_OK")
      case False
      with assms o ok m have "w' = snd (zret Close w2)" "r \<noteq> Inr ()"
        by (auto simp: SaveFolderAsEpubToLocation_def zip_defs)
      with o1 m2 ok show ?thesis by (simp add: zret_zlog zret_frame)
    next
      case mok: True
      let ?wr = "WriteInFileInZip (freed_memory w) (strlen (freed_memory w))"
      have fm: "freed_memory w2 = freed_memory w" using o1 m2 by simp
      obtain rc3 w3 where wr: "zret ?wr w2 = (rc3, w3)" by (cases "zret ?wr w2")
      note w3 = zret_cases [OF wr]
      show ?thesis
      proof (cases "rc3 = Z_OK")
        case False
        with assms o ok m mok wr fm have "w' = snd (zret Close (snd (zret CloseFileInZip w3)))" "r \<noteq> Inr ()"
          by (auto simp: SaveFolderAsEpubToLocation_def zip_defs Let_def)
        with o1 m2 w3 ok show ?thesis by (simp add: zret_zlog zret_frame)
      next
        case wok: True
        obtain rc4 w4 where cl: "zret CloseFileInZip w3 = (rc4, w4)" by (cases "zret CloseFileInZip w3")
        note c4 = zret_cases [OF cl]
        have t4: "tree w4 = tree w" using o1 m2 w3 c4 by simp
        let ?a = "add_files fuel d (QDirIterator (tree w d)) w4"
        from assms o ok m mok wr fm wok cl t4 obtain r5 w5 where a: "?a = Some (r5, w5)"
          by (cases ?a) (auto simp: SaveFolderAsEpubToLocation_def zip_defs Let_def)
        from add_files_log [OF a] obtain X where
          X: "zlog w5 = zlog w4 @ X" "prefix (file_entries X) ?files"
            "r5 = Inr () \<longrightarrow> file_entries X = ?files"
            "entry_names X = map filename (file_entries X)"
            "tree w5 = tree w4" "temp_folders w5 = temp_folders w4" by blast
        have l4: "zlog w4 = zlog w @ [(Open64 f, 1), (?m, Z_OK), (?wr, Z_OK), (CloseFileInZip, rc4)]"
          using o1 m2 w3 c4 ok mok wok by simp
        have f4: "temp_folders w4 = temp_folders w" using o1 m2 w3 c4 by simp
        show ?thesis
        proof (cases r5)
          case (Inl e)
          with assms o ok m mok wr fm wok cl t4 a have "w' = w5" "r \<noteq> Inr ()"
            by (auto simp: SaveFolderAsEpubToLocation_def zip_defs Let_def)
          with X l4 f4 show ?thesis by (simp add: file_entries_append)
        next
          case (Inr u)
          with assms o ok m mok wr fm wok cl t4 a have e: "w' = snd (zret Close w5)" "r = Inr ()"
            by (auto simp: SaveFolderAsEpubToLocation_def zip_defs Let_def)
          have "file_entries X = ?files" using X(3) Inr by simp
          with e X l4 f4 show ?thesis
            by (simp add: zret_zlog zret_frame file_entries_append)
        qed
      qed
    qed
  qed
qed

lemma calls_since_append: "zlog w' = zlog w @ Y \<Longrightarrow> calls_since w w' = Y"
  by (simp add: calls_since_def)

lemma strlen_mime: "strlen EPUB_MIME_TYPE = 20"
  by (simp add: strlen_def EPUB_MIME_TYPE_def)

text \<open>The equations that run the archive writer on a given world.\<close>

lemmas run_defs = SaveFolderAsEpubToLocation_def staged_def world0_def zipOpen64_def zret_def
    zipOpenNewFileInZip64_def zipOpenNewFileInZip4_64_def zipWriteInFileInZip_def
    zipCloseFileInZip_def zipClose_def QDirIterator_def add_file_def relpath_of_def
    filePath_def rel_path_def Z_OK_def strlen_def fileName_def Let_def
    word_gt_0 calls_since_def

section \<open>The mimetype entry\<close>


lemma run_opf_returns: "run_opf = Some (Inr (), snd (the run_opf))"
  by (simp add: run_opf_def run_defs node_opf_def)



text \<open>
  Where the freed memory holds other bytes by the time line 135 reads it, the write
  succeeds all the same and the first entry holds those bytes.
\<close>

lemma mimetype_entry_of_reused_memory:
  "run_reused = Some (Inr (), snd (the run_reused)) \<and>
   first_entry_content (zlog (snd (the run_reused))) = ''xyz''"
  by (simp add: run_reused_def world_reused_def run_defs Z_NO_COMPRESSION_def)

section \<open>A read error\<close>

text \<open>
  C2 says: when reading a source file returns an error (a negative result), the archive
  writer closes the entry and the archive and fails with \<^verbatim>\<open>CannotStoreFile\<close>, and
  writes nothing more. The code does not: \<^verbatim>\<open>read\<close> is unsigned, so -1 becomes
  4294967295, the loop goes on and hands that length to \<^verbatim>\<open>zipWriteInFileInZip\<close>, and
  the test \<^verbatim>\<open>read < 0\<close> of line 179 never holds. Here the first read of \<^verbatim>\<open>a.txt\<close>
  fails, the next one reports the end of the file, every zip call succeeds, and the
  function returns without an exception.
\<close>

theorem read_error_goes_unnoticed:
  "fst (read_at node_badread 0) = - 1 \<and>
   run_badread = Some (Inr (), snd (the run_badread)) \<and>
   zlog (snd (the run_badread)) =
     [(Open64 ''/out/b.epub'', 1),
      (OpenNewFileInZip64 ''mimetype'' 0 0 Z_NO_COMPRESSION 0 0, Z_OK),
      (WriteInFileInZip ''application/epub+zip'' 20, Z_OK),
      (CloseFileInZip, Z_OK),
      (OpenNewFileInZip4_64 (file_args ''a.txt''), Z_OK),
      (WriteInFileInZip (replicate BUFF_SIZE (CHR 0x00)) 0xFFFFFFFF, Z_OK),
      (CloseFileInZip, Z_OK),
      (Close, Z_OK)]"
  by (simp add: run_badread_def run_defs node_badread_def Z_NO_COMPRESSION_def)

text \<open>The test of line 179 is false for every value that \<^verbatim>\<open>QFile::read\<close> returns.\<close>

lemma read_is_never_negative: "\<not> (word_of_int ret :: 32 word) < 0"
  by simp

text \<open>
  Where every read of the file fails and every zip call succeeds, the loop does not come
  to an end: no amount of fuel makes the archive writer return.
\<close>

lemma zret_no_codes: "zrcs w = [] \<Longrightarrow> zret c w = (Z_OK, w\<lparr>zlog := zlog w @ [(c, Z_OK)]\<rparr>)"
  by (simp add: zret_def)

lemma node_stuck_fields:
  "is_file node_stuck" "is_readable node_stuck" "opens node_stuck"
  "read_at node_stuck k = (- 1, [])"
  by (simp_all add: node_stuck_def)

lemma copy_loop_stuck:
  "zrcs w = [] \<Longrightarrow> copy_loop fuel node_stuck rp k buff w = None"
proof (induction fuel arbitrary: k buff w)
  case 0
  then show ?case by simp
next
  case (Suc fuel)
  have "zrcs (w\<lparr>zlog := zlog w @ [(WriteInFileInZip buff (- 1), Z_OK)]\<rparr>) = []"
    using Suc.prems by simp
  from Suc.IH [OF this] show ?case
    using Suc.prems
    by (simp add: node_stuck_fields zipWriteInFileInZip_def zret_no_codes word_gt_0)
qed

lemma add_file_stuck:
  assumes "zrcs w = []"
  shows "add_file fuel d node_stuck w = None"
proof -
  have "zrcs (w\<lparr>zlog := zlog w @
           [(OpenNewFileInZip4_64 (file_args (relpath_of d node_stuck)), Z_OK)]\<rparr>) = []"
    using assms by simp
  from copy_loop_stuck [OF this] show ?thesis
    using assms
    by (simp add: add_file_def zipOpenNewFileInZip4_64_def zret_no_codes node_stuck_fields)
qed

lemma sticky_read_error_never_returns:
  "SaveFolderAsEpubToLocation fuel ''/tmp/s'' ''/out/b.epub'' (staged [node_stuck]) = None"
  by (simp add: SaveFolderAsEpubToLocation_def staged_def world0_def zipOpen64_def
        zipOpenNewFileInZip64_def zipWriteInFileInZip_def zipCloseFileInZip_def
        zret_no_codes QDirIterator_def node_stuck_fields add_file_stuck)

section \<open>The arguments of the entries of the files\<close>

text \<open>
  C3, as amended. The claim says that the entry of every file is opened with the ZIP64
  header requested, whatever the size of the file. The code passes 0 for the parameter
  \<^verbatim>\<open>zip64\<close>. Its comment (line 152) asks for 1 where the size reaches
  \<^verbatim>\<open>0xffffffff\<close>, so for the smaller files 0 is what the code means: after a
  successful write the files of the iteration and the entries opened for them
  correspond one to one, in order, each entry is named by \<^verbatim>\<open>relpath\<close>, and the entry
  of a file below \<^verbatim>\<open>0xffffffff\<close> bytes has \<^verbatim>\<open>zip64 = 0\<close>.
\<close>

theorem zip64_not_requested:
  assumes "SaveFolderAsEpubToLocation fuel d f w = Some (Inr (), w')"
  shows "list_all2 (\<lambda>n a. filename a = relpath_of d n \<and>
                          (byte_size n < 0xffffffff \<longrightarrow> zip64 a = 0))
           (QDirIterator (tree w d)) (file_entries (calls_since w w'))"
proof -
  from SaveFolder_log [OF assms] obtain rc rc' X where
    Y: "zlog w' = zlog w @ [(Open64 f, 1),
               (OpenNewFileInZip64 ''mimetype'' 0 0 Z_NO_COMPRESSION 0 0, Z_OK),
               (WriteInFileInZip (freed_memory w) (strlen (freed_memory w)), Z_OK),
               (CloseFileInZip, rc)] @ X @ [(Close, rc')]"
    and X: "file_entries X = map (\<lambda>n. file_args (relpath_of d n)) (QDirIterator (tree w d))"
    by auto
  have "file_entries (calls_since w w') =
          map (\<lambda>n. file_args (relpath_of d n)) (QDirIterator (tree w d))"
    using calls_since_append [OF Y] X by (simp add: file_entries_append)
  then show ?thesis
    by (simp add: list_all2_map2 file_args_def list.rel_refl)
qed

theorem zip64_not_requested_witness:
  "run_opf = Some (Inr (), snd (the run_opf)) \<and> byte_size node_opf < 0xffffffff \<and>
   map zip64 (file_entries (calls_since (staged [node_opf]) (snd (the run_opf)))) = [0]"
proof -
  have r: "SaveFolderAsEpubToLocation (Suc (Suc 0)) ''/tmp/s'' ''/out/b.epub''
             (staged [node_opf]) = Some (Inr (), snd (the run_opf))"
    using run_opf_returns by (simp add: run_opf_def)
  have s: "byte_size node_opf < 0xffffffff" by (simp add: node_opf_def)
  from zip64_not_requested [OF r] s show ?thesis
    using run_opf_returns
    by (auto simp add: QDirIterator_def staged_def world0_def list_all2_Cons1
          node_opf_def)
qed

text \<open>
  C3 as stated fails: two small files are archived, and neither entry asks for the
  ZIP64 header.
\<close>

theorem zip64_flag_is_zero:
  "run_book = Some (Inr (), snd (the run_book)) \<and>
   map zip64 (file_entries (zlog (snd (the run_book)))) = [0, 0]"
  by (simp add: run_book_def run_defs node_opf_def node_ch1_def file_args_def)

text \<open>
  C4, as amended. The claim says that the entry of every file is opened with the method
  deflate at the default compression level. The method is \<open>Z_DEFLATED\<close>, the level is 8
  (the default level of zlib is \<open>Z_DEFAULT_COMPRESSION\<close>, which zlib reads as 6). This
  holds of every entry that the loop over the files opens, in a run that succeeds and in
  one that fails; in a run that succeeds every file of the iteration has its entry.
\<close>

theorem deflate_at_level_8:
  assumes "SaveFolderAsEpubToLocation fuel d f w = Some (r, w')"
  shows "(\<forall>a\<in>set (file_entries (calls_since w w')). zip_method a = Z_DEFLATED \<and> level a = 8) \<and>
         (r = Inr () \<longrightarrow>
            map filename (file_entries (calls_since w w')) =
              map (relpath_of d) (QDirIterator (tree w d)))"
proof -
  let ?files = "map (\<lambda>n. file_args (relpath_of d n)) (QDirIterator (tree w d))"
  from SaveFolder_log [OF assms] obtain Y where
    Y: "zlog w' = zlog w @ Y" "prefix (file_entries Y) ?files"
    and S: "r = Inr () \<longrightarrow> (\<exists>rc rc' X. Y =
              [(Open64 f, 1),
               (OpenNewFileInZip64 ''mimetype'' 0 0 Z_NO_COMPRESSION 0 0, Z_OK),
               (WriteInFileInZip (freed_memory w) (strlen (freed_memory w)), Z_OK),
               (CloseFileInZip, rc)] @ X @ [(Close, rc')] \<and>
              file_entries X = ?files)" by blast
  have c: "calls_since w w' = Y" using Y(1) by (rule calls_since_append)
  have "set (file_entries Y) \<subseteq> set ?files" using Y(2) by (rule set_mono_prefix)
  then have a: "\<forall>a\<in>set (file_entries Y). zip_method a = Z_DEFLATED \<and> level a = 8"
    by (auto simp: file_args_def)
  have "r = Inr () \<longrightarrow> file_entries Y = ?files"
    using S by (auto simp: file_entries_append)
  then have "r = Inr () \<longrightarrow> map filename (file_entries Y) = map (relpath_of d) (QDirIterator (tree w d))"
    by (simp add: file_args_def comp_def)
  with a c show ?thesis by simp
qed

lemma run_locked_returns:
  "run_locked = Some (Inl (CannotOpenFile ''ch1.xhtml'' None), snd (the run_locked))"
  by (simp add: run_locked_def run_defs node_opf_def node_locked_def)

theorem deflate_at_level_8_witness:
  "run_locked = Some (Inl (CannotOpenFile ''ch1.xhtml'' None), snd (the run_locked)) \<and>
   map zip_method (file_entries (calls_since (staged [node_opf, node_locked]) (snd (the run_locked)))) =
     [Z_DEFLATED, Z_DEFLATED] \<and>
   map level (file_entries (calls_since (staged [node_opf, node_locked]) (snd (the run_locked)))) =
     [8, 8]"
proof -
  have r: "SaveFolderAsEpubToLocation (Suc (Suc 0)) ''/tmp/s'' ''/out/b.epub''
             (staged [node_opf, node_locked]) =
           Some (Inl (CannotOpenFile ''ch1.xhtml'' None), snd (the run_locked))"
    using run_locked_returns by (simp add: run_locked_def)
  have n: "length (file_entries (calls_since (staged [node_opf, node_locked]) (snd (the run_locked)))) = 2"
    by (simp add: run_locked_def run_defs node_opf_def node_locked_def)
  from deflate_at_level_8 [OF r] n show ?thesis
    using run_locked_returns
    by (auto simp add: length_Suc_conv numeral_2_eq_2)
qed

text \<open>
  C4 as stated fails: two files are archived, both at level 8, which is not the
  default level.
\<close>

theorem level_is_not_the_default:
  "run_book = Some (Inr (), snd (the run_book)) \<and>
   map level (file_entries (zlog (snd (the run_book)))) = [8, 8] \<and>
   Z_DEFAULT_COMPRESSION \<noteq> 8"
  by (simp add: run_book_def run_defs node_opf_def node_ch1_def file_args_def
        Z_DEFAULT_COMPRESSION_def)

section \<open>The path in the exception\<close>

text \<open>
  C7 says: when archiving a file fails (the source file does not open, a write fails,
  closing the entry fails), the exception names the path of the file relative to the
  staged directory. For a write and for a close it does (lines 174 and 187); for a file
  that does not open the code passes \<^verbatim>\<open>it.fileName()\<close>, the name without its folders
  (line 164). Here \<^verbatim>\<open>OEBPS/Text/ch1.xhtml\<close> does not open, and the exception names
  \<^verbatim>\<open>ch1.xhtml\<close>.
\<close>

theorem open_failure_names_the_file_only:
  "run_locked = Some (Inl (CannotOpenFile ''ch1.xhtml'' None), snd (the run_locked)) \<and>
   relpath_of ''/tmp/s'' node_locked = ''OEBPS/Text/ch1.xhtml'' \<and>
   rel_path node_locked = ''OEBPS/Text/ch1.xhtml''"
  by (simp add: run_locked_def run_defs node_opf_def node_locked_def)

text \<open>
  The other failures of the loop body do name \<^verbatim>\<open>relpath\<close>: an exception of the body
  is \<^verbatim>\<open>CannotStoreFile\<close> with \<^verbatim>\<open>relpath\<close>, or it is the \<^verbatim>\<open>CannotOpenFile\<close> of a
  file that does not open, with the bare file name.
\<close>

lemma copy_loop_error:
  "copy_loop fuel n rp k buff w = Some (Inl e, w') \<Longrightarrow> e = CannotStoreFile rp"
proof (induction fuel arbitrary: k buff w)
  case 0
  then show ?case by simp
next
  case (Suc fuel)
  then show ?case
    by (auto simp: Let_def split: prod.splits if_splits)
qed

lemma add_file_error:
  assumes "add_file fuel d n w = Some (Inl e, w')"
  shows "e = CannotStoreFile (relpath_of d n) \<or>
         (\<not> opens n \<and> e = CannotOpenFile (fileName n) None)"
  using assms
  by (auto simp: add_file_def Let_def dest: copy_loop_error
      split: prod.splits if_splits option.splits sum.splits)

section \<open>The names of the entries\<close>

lemma occurs_Nil: "occurs [] s"
  by (cases s) simp_all

lemma remove_all_absent: "\<not> occurs pat s \<Longrightarrow> remove_all pat s = s"
  by (induction pat s rule: remove_all.induct) auto

lemma remove_all_own_prefix: "pat \<noteq> [] \<Longrightarrow> remove_all pat (pat @ s) = remove_all pat s"
  by (cases pat) simp_all

lemma join_path_head:
  assumes "cs \<noteq> []" and "list_all (\<lambda>c. c \<noteq> [] \<and> CHR ''/'' \<notin> set c) cs"
  shows "\<exists>x xs. join_path cs = x # xs \<and> x \<noteq> CHR ''/''"
proof -
  from assms obtain c rest where cs: "cs = c # rest" by (cases cs) auto
  with assms obtain x xs where c: "c = x # xs" "x \<noteq> CHR ''/''" by (cases c) auto
  show ?thesis using cs c by (cases rest) auto
qed

lemma occurs_tail: "occurs pat cs \<Longrightarrow> occurs pat (c # cs)"
  by simp

lemma relpath_of_plain:
  assumes "wf_node n" and "\<not> occurs d (CHR ''/'' # rel_path n)"
  shows "relpath_of d n = rel_path n" and "\<not> prefix ''/'' (rel_path n)"
proof -
  from assms(2) have d: "d \<noteq> []" using occurs_Nil by blast
  from assms(2) have t: "\<not> occurs d (rel_path n)" using occurs_tail by blast
  from assms(1) obtain x xs where j: "rel_path n = x # xs" "x \<noteq> CHR ''/''"
    using join_path_head [of "comps n"] by (auto simp: wf_node_def rel_path_def)
  show "relpath_of d n = rel_path n"
  proof (cases "last d = CHR ''/''")
    case True
    then have "remove_all d (filePath d n) = rel_path n"
      using d t by (simp add: filePath_def remove_all_own_prefix remove_all_absent)
    then show ?thesis using j by (simp add: relpath_of_def)
  next
    case False
    have "remove_all d (d @ (CHR ''/'' # rel_path n)) = remove_all d (CHR ''/'' # rel_path n)"
      using d by (rule remove_all_own_prefix)
    also have "\<dots> = CHR ''/'' # rel_path n"
      using assms(2) by (rule remove_all_absent)
    finally have "remove_all d (filePath d n) = CHR ''/'' # rel_path n"
      using False by (simp add: filePath_def)
    then show ?thesis using j by (simp add: relpath_of_def)
  qed
  show "\<not> prefix ''/'' (rel_path n)" using j by simp
qed

text \<open>
  C8, as amended. The claim says that after a successful write the names of the entries
  other than the mimetype entry are the root-relative paths of the regular files below
  the staged directory, each with forward slashes and no leading slash. The iterator
  visits the readable files only, so the claim holds of the readable regular files; and
  it holds where the path of the staged directory does not stand again inside the path of
  a file behind the root (\<^verbatim>\<open>QString::remove\<close> takes out every occurrence, see
  \<open>every_occurrence_removed\<close>). The names come in the order of the iteration.
\<close>

theorem entry_names_are_relative_paths:
  assumes "SaveFolderAsEpubToLocation fuel d f w = Some (Inr (), w')"
    and "\<forall>n\<in>set (QDirIterator (tree w d)). wf_node n \<and> \<not> occurs d (CHR ''/'' # rel_path n)"
  shows "tl (entry_names (calls_since w w')) =
           map rel_path (filter (\<lambda>n. is_file n \<and> is_readable n) (tree w d)) \<and>
         set (tl (entry_names (calls_since w w'))) =
           rel_path ` {n \<in> set (tree w d). is_file n \<and> is_readable n} \<and>
         (\<forall>name\<in>set (tl (entry_names (calls_since w w'))). \<not> prefix ''/'' name)"
proof -
  let ?ns = "QDirIterator (tree w d)"
  from SaveFolder_log [OF assms(1)] obtain rc rc' X where
    Y: "zlog w' = zlog w @ [(Open64 f, 1),
               (OpenNewFileInZip64 ''mimetype'' 0 0 Z_NO_COMPRESSION 0 0, Z_OK),
               (WriteInFileInZip (freed_memory w) (strlen (freed_memory w)), Z_OK),
               (CloseFileInZip, rc)] @ X @ [(Close, rc')]"
    and X: "file_entries X = map (\<lambda>n. file_args (relpath_of d n)) ?ns"
      "entry_names X = map filename (file_entries X)" by auto
  have "map (relpath_of d) ?ns = map rel_path ?ns"
    using assms(2) by (simp add: relpath_of_plain)
  then have "entry_names X = map rel_path ?ns"
    using X by (simp add: file_args_def comp_def)
  then have n: "tl (entry_names (calls_since w w')) = map rel_path ?ns"
    using calls_since_append [OF Y] by (simp add: entry_names_append)
  have p: "\<forall>name\<in>set (map rel_path ?ns). \<not> prefix ''/'' name"
    using assms(2) relpath_of_plain(2) by auto
  have s: "set (map rel_path ?ns) = rel_path ` {n \<in> set (tree w d). is_file n \<and> is_readable n}"
    by (auto simp: QDirIterator_def)
  show ?thesis using n p s unfolding QDirIterator_def by simp
qed

lemma run_book_returns: "run_book = Some (Inr (), snd (the run_book))"
  by (simp add: run_book_def run_defs node_opf_def node_ch1_def)

theorem entry_names_are_relative_paths_witness:
  "run_book = Some (Inr (), snd (the run_book)) \<and>
   tl (entry_names (calls_since (staged [node_opf, node_ch1]) (snd (the run_book)))) =
     [''content.opf'', ''OEBPS/Text/ch1.xhtml'']"
proof -
  have r: "SaveFolderAsEpubToLocation (Suc (Suc 0)) ''/tmp/s'' ''/out/b.epub''
             (staged [node_opf, node_ch1]) = Some (Inr (), snd (the run_book))"
    using run_book_returns by (simp add: run_book_def)
  have h: "\<forall>n\<in>set (QDirIterator (tree (staged [node_opf, node_ch1]) ''/tmp/s'')).
             wf_node n \<and> \<not> occurs ''/tmp/s'' (CHR ''/'' # rel_path n)"
    by (simp add: QDirIterator_def staged_def world0_def node_opf_def node_ch1_def
          wf_node_def rel_path_def)
  from entry_names_are_relative_paths [OF r h] show ?thesis
    using run_book_returns
    by (simp add: staged_def world0_def node_opf_def node_ch1_def rel_path_def)
qed

text \<open>
  C8 as stated fails: the staged directory holds \<^verbatim>\<open>content.opf\<close> and the regular
  file \<^verbatim>\<open>OEBPS/secret.css\<close>, which is not readable; the write succeeds and the
  archive has no entry for the second file.
\<close>

theorem unreadable_file_is_no_entry:
  "run_hidden = Some (Inr (), snd (the run_hidden)) \<and>
   tl (entry_names (zlog (snd (the run_hidden)))) = [''content.opf''] \<and>
   map rel_path (filter is_file [node_opf, node_unreadable]) =
     [''content.opf'', ''OEBPS/secret.css''] \<and>
   set (tl (entry_names (zlog (snd (the run_hidden))))) \<noteq>
     set (map rel_path (filter is_file [node_opf, node_unreadable]))"
  by (simp add: run_hidden_def run_defs node_opf_def node_unreadable_def
        Z_NO_COMPRESSION_def file_args_def)

text \<open>
  Every occurrence of the directory path is removed: below \<^verbatim>\<open>/t\<close> the file
  \<^verbatim>\<open>a/t/b\<close> gets the entry name \<^verbatim>\<open>a/b\<close>.
\<close>

lemma every_occurrence_removed:
  "rel_path node_inner = ''a/t/b'' \<and> relpath_of ''/t'' node_inner = ''a/b''"
  by (simp add: node_inner_def relpath_of_def filePath_def rel_path_def)

section \<open>The keys of the font obfuscation\<close>

lemma ObfuscateFile_cases:
  assumes "ObfuscateFile p a k w = (r, w')"
  shows "obf_log w' = obf_log w @ [(p, a, k)]" and "obf_throws w' = obf_throws w"
    and "temp_folders w' = temp_folders w" and "fresh_temp w' = fresh_temp w"
    and "r = Inr () \<longleftrightarrow> obf_throws w p a k = None"
    and "\<And>e. r = Inl e \<longleftrightarrow> obf_throws w p a k = Some e"
  using assms by (auto simp: ObfuscateFile_def split: option.splits)

lemma font_loop_calls:
  "font_loop A (UUIDIdentifierValue b) (PublicationIdentifier b) d fs w = (r, w') \<Longrightarrow>
     \<exists>X. obf_log w' = obf_log w @ X \<and>
         prefix X (concat (map (spec_font_calls A b d) fs)) \<and>
         (r = Inr () \<longrightarrow> X = concat (map (spec_font_calls A b d) fs)) \<and>
         (\<forall>e. r = Inl e \<longrightarrow>
            X \<noteq> [] \<and> (case last X of (p, a, k) \<Rightarrow> obf_throws w p a k = Some e)) \<and>
         obf_throws w' = obf_throws w \<and> temp_folders w' = temp_folders w"
proof (induction fs arbitrary: w)
  case Nil
  then show ?case by auto
next
  case (Cons f fs)
  let ?u = "UUIDIdentifierValue b" and ?m = "PublicationIdentifier b"
  show ?case
  proof (cases "ObfuscationAlgorithm f = []")
    case True
    with Cons.prems have "font_loop A ?u ?m d fs w = (r, w')" by simp
    from Cons.IH [OF this] show ?thesis
      using True by (simp add: spec_font_calls_def)
  next
    case False
    define k where "k = (if ObfuscationAlgorithm f = A then ?u else ?m)"
    define c where "c = (d @ ''/'' @ RelativePathToRoot f, ObfuscationAlgorithm f, k)"
    have sp: "spec_font_calls A b d f = [c]"
      using False by (simp add: spec_font_calls_def c_def k_def)
    obtain r1 w1 where
      o: "ObfuscateFile (d @ ''/'' @ RelativePathToRoot f) (ObfuscationAlgorithm f) k w = (r1, w1)"
      by (cases "ObfuscateFile (d @ ''/'' @ RelativePathToRoot f) (ObfuscationAlgorithm f) k w")
    note o1 = ObfuscateFile_cases [OF o]
    show ?thesis
    proof (cases r1)
      case (Inl e)
      with Cons.prems False o have "r = Inl e" "w' = w1"
        by (auto simp: k_def Let_def split: if_splits)
      with o1 Inl sp show ?thesis
        by (intro exI [of _ "[c]"]) (simp add: c_def)
    next
      case (Inr u)
      with Cons.prems False o have "font_loop A ?u ?m d fs w1 = (r, w')"
        by (auto simp: k_def Let_def split: if_splits)
      from Cons.IH [OF this] obtain X where
        X: "obf_log w' = obf_log w1 @ X" "prefix X (concat (map (spec_font_calls A b d) fs))"
          "r = Inr () \<longrightarrow> X = concat (map (spec_font_calls A b d) fs)"
          "\<forall>e. r = Inl e \<longrightarrow>
            X \<noteq> [] \<and> (case last X of (p, a, k) \<Rightarrow> obf_throws w1 p a k = Some e)"
          "obf_throws w' = obf_throws w1" "temp_folders w' = temp_folders w1" by blast
      with o1 sp show ?thesis
        by (intro exI [of _ "c # X"]) (simp add: c_def)
    qed
  qed
qed

lemma obf_calls_since_append: "obf_log w' = obf_log w @ X \<Longrightarrow> obf_calls_since w w' = X"
  by (simp add: obf_calls_since_def)

text \<open>
  C5. For the font resources that \<^verbatim>\<open>ObfuscateFonts\<close> goes through: a font with an
  empty tag is skipped, and no error comes of it; a font with the Adobe tag is
  obfuscated with the UUID identifier as the key; every other font is obfuscated with
  the publication identifier as the key. So the calls of \<^verbatim>\<open>ObfuscateFile\<close> that a run
  makes are a prefix of the calls that the spec lists for the fonts in their order, all
  of them when the run succeeds; and when the run fails, the exception is the one that
  the last call of \<^verbatim>\<open>ObfuscateFile\<close> raised.
\<close>

theorem key_selection:
  assumes "ObfuscateFonts A b d w = (r, w')"
  shows "prefix (obf_calls_since w w') (concat (map (spec_font_calls A b d) (FontResources b))) \<and>
         (r = Inr () \<longrightarrow>
            obf_calls_since w w' = concat (map (spec_font_calls A b d) (FontResources b))) \<and>
         (\<forall>e. r = Inl e \<longrightarrow>
            obf_calls_since w w' \<noteq> [] \<and>
            (case last (obf_calls_since w w') of (p, a, k) \<Rightarrow> obf_throws w p a k = Some e))"
proof -
  from assms have
    "font_loop A (UUIDIdentifierValue b) (PublicationIdentifier b) d (FontResources b) w = (r, w')"
    by (simp add: ObfuscateFonts_def)
  from font_loop_calls [OF this] obtain X where
    "obf_log w' = obf_log w @ X" "prefix X (concat (map (spec_font_calls A b d) (FontResources b)))"
    "r = Inr () \<longrightarrow> X = concat (map (spec_font_calls A b d) (FontResources b))"
    "\<forall>e. r = Inl e \<longrightarrow>
            X \<noteq> [] \<and> (case last X of (p, a, k) \<Rightarrow> obf_throws w p a k = Some e)" by blast
  then show ?thesis by (simp add: obf_calls_since_append)
qed

lemmas font_defs = ObfuscateFonts_def ObfuscateFile_def book0_def world0_def font_plain_def
  font_adobe_def font_idpf_def font_unknown_def Let_def obf_calls_since_def spec_font_calls_def

lemma fonts_run: "ObfuscateFonts ''http://ns.adobe.com/pdf/enc#RC'' book0 ''/tmp/s'' world0 =
   (Inr (), snd (ObfuscateFonts ''http://ns.adobe.com/pdf/enc#RC'' book0 ''/tmp/s'' world0))"
  by (simp add: font_defs)

theorem key_selection_witness:
  "obf_calls_since world0 (snd (ObfuscateFonts ''http://ns.adobe.com/pdf/enc#RC'' book0 ''/tmp/s'' world0)) =
     [(''/tmp/s/OEBPS/Fonts/a.ttf'', ''http://ns.adobe.com/pdf/enc#RC'', ''urn:uuid:ABCDEF''),
      (''/tmp/s/OEBPS/Fonts/b.otf'', ''http://www.idpf.org/2008/embedding'', ''isbn:123''),
      (''/tmp/s/OEBPS/Fonts/d.ttf'', ''rot13'', ''isbn:123'')]"
  using key_selection [OF fonts_run] by (simp add: font_defs)

lemma font_loop_head:
  assumes "ObfuscationAlgorithm f \<noteq> []"
  shows "\<exists>more. obf_log (snd (font_loop A u m d (f # rest) w)) =
           obf_log w @ (d @ ''/'' @ RelativePathToRoot f, ObfuscationAlgorithm f,
                        if ObfuscationAlgorithm f = A then u else m) # more"
proof -
  define k where "k = (if ObfuscationAlgorithm f = A then u else m)"
  let ?p = "d @ ''/'' @ RelativePathToRoot f" and ?a = "ObfuscationAlgorithm f"
  obtain r1 w1 where o: "ObfuscateFile ?p ?a k w = (r1, w1)"
    by (cases "ObfuscateFile ?p ?a k w")
  note o1 = ObfuscateFile_cases(1) [OF o]
  show ?thesis
  proof (cases r1)
    case (Inl e)
    with assms o have "snd (font_loop A u m d (f # rest) w) = w1"
      by (auto simp: k_def Let_def split: if_splits)
    with o1 show ?thesis by (simp add: k_def)
  next
    case (Inr x)
    obtain r2 w2 where l: "font_loop A u m d rest w1 = (r2, w2)"
      by (cases "font_loop A u m d rest w1")
    have mono: "\<exists>X. obf_log w2 = obf_log w1 @ X"
      using l
    proof (induction rest arbitrary: w1)
      case Nil
      then show ?case by simp
    next
      case (Cons g gs)
      show ?case
      proof (cases "ObfuscationAlgorithm g = []")
        case True
        with Cons show ?thesis by simp
      next
        case False
        define kg where "kg = (if ObfuscationAlgorithm g = A then u else m)"
        obtain r3 w3 where
          o3: "ObfuscateFile (d @ ''/'' @ RelativePathToRoot g) (ObfuscationAlgorithm g) kg w1 = (r3, w3)"
          by (cases "ObfuscateFile (d @ ''/'' @ RelativePathToRoot g) (ObfuscationAlgorithm g) kg w1")
        note l3 = ObfuscateFile_cases(1) [OF o3]
        show ?thesis
        proof (cases r3)
          case (Inl e)
          with Cons.prems False o3 have "w2 = w3"
            by (auto simp: kg_def Let_def split: if_splits)
          with l3 show ?thesis by simp
        next
          case (Inr y)
          with Cons.prems False o3 have "font_loop A u m d gs w3 = (r2, w2)"
            by (auto simp: kg_def Let_def split: if_splits)
          from Cons.IH [OF this] l3 show ?thesis by auto
        qed
      qed
    qed
    from Inr assms o l have "snd (font_loop A u m d (f # rest) w) = w2"
      by (auto simp: k_def Let_def split: if_splits)
    with mono o1 show ?thesis by (auto simp add: k_def)
  qed
qed

lemma font_loop_pre:
  assumes "\<forall>c\<in>set (concat (map (spec_font_calls A b d) pre)).
             obf_throws w (fst c) (fst (snd c)) (snd (snd c)) = None"
  shows "\<exists>w1. font_loop A (UUIDIdentifierValue b) (PublicationIdentifier b) d (pre @ rest) w =
              font_loop A (UUIDIdentifierValue b) (PublicationIdentifier b) d rest w1 \<and>
            obf_log w1 = obf_log w @ concat (map (spec_font_calls A b d) pre) \<and>
            obf_throws w1 = obf_throws w"
  using assms
proof (induction pre arbitrary: w)
  case Nil
  show ?case by (intro exI [of _ w]) simp
next
  case (Cons g gs)
  let ?u = "UUIDIdentifierValue b" and ?m = "PublicationIdentifier b"
  show ?case
  proof (cases "ObfuscationAlgorithm g = []")
    case True
    then have sp: "spec_font_calls A b d g = []" by (simp add: spec_font_calls_def)
    from Cons.prems have
      "\<forall>c\<in>set (concat (map (spec_font_calls A b d) gs)).
             obf_throws w (fst c) (fst (snd c)) (snd (snd c)) = None" by simp
    from Cons.IH [OF this] show ?thesis using True sp by simp
  next
    case False
    define k where "k = (if ObfuscationAlgorithm g = A then ?u else ?m)"
    let ?p = "d @ ''/'' @ RelativePathToRoot g" and ?a = "ObfuscationAlgorithm g"
    have sp: "spec_font_calls A b d g = [(?p, ?a, k)]"
      using False by (simp add: spec_font_calls_def k_def)
    with Cons.prems have nt: "obf_throws w ?p ?a k = None" by simp
    obtain r1 w1 where o: "ObfuscateFile ?p ?a k w = (r1, w1)"
      by (cases "ObfuscateFile ?p ?a k w")
    note o1 = ObfuscateFile_cases [OF o]
    from o1(5) nt have r1: "r1 = Inr ()" by simp
    from Cons.prems o1(2) have
      "\<forall>c\<in>set (concat (map (spec_font_calls A b d) gs)).
             obf_throws w1 (fst c) (fst (snd c)) (snd (snd c)) = None" by simp
    from Cons.IH [OF this] obtain w2 where
      w2: "font_loop A ?u ?m d (gs @ rest) w1 = font_loop A ?u ?m d rest w2"
        "obf_log w2 = obf_log w1 @ concat (map (spec_font_calls A b d) gs)"
        "obf_throws w2 = obf_throws w1" by blast
    have "font_loop A ?u ?m d ((g # gs) @ rest) w = font_loop A ?u ?m d (gs @ rest) w1"
      using False o r1 by (auto simp: k_def Let_def split: if_splits)
    with w2 o1(1,2) sp show ?thesis
      by (intro exI [of _ w2]) simp
  qed
qed

text \<open>
  C10. A font whose tag is neither empty nor the Adobe identifier, known or not, is
  handed to \<^verbatim>\<open>ObfuscateFile\<close> with the publication identifier as the key:
  \<^verbatim>\<open>ObfuscateFonts\<close> neither rejects nor skips it. This is said of every run of
  \<^verbatim>\<open>ObfuscateFonts\<close>, whatever it returns, and of every place that such a font has
  among the fonts of the book: unless a call of \<^verbatim>\<open>ObfuscateFile\<close> for a font before it
  raises, the calls made are those of the fonts before it, then the call for this font
  with the publication identifier; a run that succeeds has made that call; and a run
  that fails has failed by the exception of its last call of \<^verbatim>\<open>ObfuscateFile\<close>, never by
  an exception of \<^verbatim>\<open>ObfuscateFonts\<close> itself.
\<close>

theorem other_tags_use_publication_identifier:
  assumes "ObfuscateFonts A b d w = (r, w')"
    and "FontResources b = pre @ f # post"
    and "ObfuscationAlgorithm f \<noteq> []" and "ObfuscationAlgorithm f \<noteq> A"
  shows "((\<forall>c\<in>set (concat (map (spec_font_calls A b d) pre)).
             obf_throws w (fst c) (fst (snd c)) (snd (snd c)) = None) \<longrightarrow>
          (\<exists>more. obf_calls_since w w' =
             concat (map (spec_font_calls A b d) pre) @
             (d @ ''/'' @ RelativePathToRoot f, ObfuscationAlgorithm f,
              PublicationIdentifier b) # more)) \<and>
         (r = Inr () \<longrightarrow>
            (d @ ''/'' @ RelativePathToRoot f, ObfuscationAlgorithm f, PublicationIdentifier b)
              \<in> set (obf_calls_since w w')) \<and>
         (\<forall>e. r = Inl e \<longrightarrow>
            obf_calls_since w w' \<noteq> [] \<and>
            (case last (obf_calls_since w w') of (p, a, k) \<Rightarrow> obf_throws w p a k = Some e))"
proof -
  let ?u = "UUIDIdentifierValue b" and ?m = "PublicationIdentifier b"
  let ?c = "(d @ ''/'' @ RelativePathToRoot f, ObfuscationAlgorithm f, ?m)"
  from assms(1,2) have run: "font_loop A ?u ?m d (pre @ f # post) w = (r, w')"
    by (simp add: ObfuscateFonts_def)
  have reached: "\<exists>more. obf_calls_since w w' =
             concat (map (spec_font_calls A b d) pre) @ ?c # more"
    if h: "\<forall>c\<in>set (concat (map (spec_font_calls A b d) pre)).
             obf_throws w (fst c) (fst (snd c)) (snd (snd c)) = None"
  proof -
    from font_loop_pre [OF h, of "f # post"] obtain w1 where
      w1: "font_loop A ?u ?m d (pre @ f # post) w = font_loop A ?u ?m d (f # post) w1"
        "obf_log w1 = obf_log w @ concat (map (spec_font_calls A b d) pre)" by blast
    from font_loop_head [OF assms(3), of A ?u ?m d post w1] assms(4) obtain more where
      m: "obf_log (snd (font_loop A ?u ?m d (f # post) w1)) = obf_log w1 @ ?c # more" by auto
    have "font_loop A ?u ?m d (f # post) w1 = (r, w')"
      by (rule trans [OF w1(1) [symmetric] run])
    then have "snd (font_loop A ?u ?m d (f # post) w1) = w'" by (simp only: snd_conv)
    with m have "obf_log w' = obf_log w1 @ ?c # more" by (simp only:)
    with w1(2) show ?thesis by (simp add: obf_calls_since_def)
  qed
  from run assms(2) have
    "font_loop A ?u ?m d (FontResources b) w = (r, w')" by simp
  from font_loop_calls [OF this] obtain X where
    X: "obf_log w' = obf_log w @ X"
      "r = Inr () \<longrightarrow> X = concat (map (spec_font_calls A b d) (FontResources b))"
      "\<forall>e. r = Inl e \<longrightarrow>
            X \<noteq> [] \<and> (case last X of (p, a, k) \<Rightarrow> obf_throws w p a k = Some e)" by blast
  have c: "obf_calls_since w w' = X" using X(1) by (rule obf_calls_since_append)
  have sp: "spec_font_calls A b d f = [?c]"
    using assms(3,4) by (simp add: spec_font_calls_def)
  have "r = Inr () \<longrightarrow> ?c \<in> set X"
    using X(2) assms(2) sp by simp
  with reached X(3) c show ?thesis by simp
qed

lemma fontfail_run:
  "ObfuscateFonts ''http://ns.adobe.com/pdf/enc#RC'' book0 ''/tmp/s'' world_fontfail =
     (Inl (CannotOpenFile ''/tmp/s/OEBPS/Fonts/d.ttf'' None),
      snd (ObfuscateFonts ''http://ns.adobe.com/pdf/enc#RC'' book0 ''/tmp/s'' world_fontfail))"
  by (simp add: font_defs world_fontfail_def)

theorem other_tags_use_publication_identifier_witness:
  "FontResources book0 = [font_plain, font_adobe, font_idpf] @ font_unknown # [] \<and>
   ObfuscationAlgorithm font_unknown \<noteq> [] \<and>
   ObfuscationAlgorithm font_unknown \<noteq> ''http://ns.adobe.com/pdf/enc#RC'' \<and>
   fst (ObfuscateFonts ''http://ns.adobe.com/pdf/enc#RC'' book0 ''/tmp/s'' world_fontfail) =
     Inl (CannotOpenFile ''/tmp/s/OEBPS/Fonts/d.ttf'' None) \<and>
   obf_calls_since world_fontfail
     (snd (ObfuscateFonts ''http://ns.adobe.com/pdf/enc#RC'' book0 ''/tmp/s'' world_fontfail)) =
     [(''/tmp/s/OEBPS/Fonts/a.ttf'', ''http://ns.adobe.com/pdf/enc#RC'', ''urn:uuid:ABCDEF''),
      (''/tmp/s/OEBPS/Fonts/b.otf'', ''http://www.idpf.org/2008/embedding'', ''isbn:123''),
      (''/tmp/s/OEBPS/Fonts/d.ttf'', ''rot13'', ''isbn:123'')]"
proof -
  have l: "FontResources book0 = [font_plain, font_adobe, font_idpf] @ font_unknown # []"
    by (simp add: book0_def)
  have a: "ObfuscationAlgorithm font_unknown \<noteq> []"
    and b: "ObfuscationAlgorithm font_unknown \<noteq> ''http://ns.adobe.com/pdf/enc#RC''"
    by (simp_all add: font_unknown_def)
  have h: "\<forall>c\<in>set (concat (map (spec_font_calls ''http://ns.adobe.com/pdf/enc#RC'' book0 ''/tmp/s'')
                               [font_plain, font_adobe, font_idpf])).
             obf_throws world_fontfail (fst c) (fst (snd c)) (snd (snd c)) = None"
    by (simp add: font_defs world_fontfail_def)
  from other_tags_use_publication_identifier [OF fontfail_run l a b] h l a b
  show ?thesis
    using fontfail_run by (simp add: font_defs world_fontfail_def)
qed

section \<open>The encryption manifest\<close>

text \<open>
  C6 says: every failure is surfaced to the caller, and in particular a failure to put
  the encryption manifest into the folder \<^verbatim>\<open>META-INF\<close> of the staged tree is reported.
  The code reports that the temporary file does not open (line 199), but it drops the
  result of \<^verbatim>\<open>QFile::copy\<close> (line 213): here the copy fails, and both
  \<^verbatim>\<open>CreateEncryptionXML\<close> and the whole export return without an exception.
\<close>

theorem manifest_copy_failure_is_silent:
  "copy_ok world_nocopy = False \<and>
   CreateEncryptionXML ''/tmp/s/META-INF'' world_nocopy =
     (Inr (), snd (CreateEncryptionXML ''/tmp/s/META-INF'' world_nocopy)) \<and>
   copy_log (snd (CreateEncryptionXML ''/tmp/s/META-INF'' world_nocopy)) =
     [(''/tmp/qt_temp.a1'', ''/tmp/s/META-INF/encryption.xml'', False)] \<and>
   run_export_nocopy = Some (Inr (), snd (the run_export_nocopy)) \<and>
   copy_log (snd (the run_export_nocopy)) =
     [(''/tmp/qt_temp.a1'', ''/tmp/Sigil/scratchpad/0/META-INF/encryption.xml'', False)]"
  by (simp add: world_nocopy_def CreateEncryptionXML_def collaborator_def QFile_copy_def
        ENCRYPTION_XML_FILE_NAME_def run_export_nocopy_def WriteBook_def WriteBook_scope_def
        CreatePublication_def METAINF_FOLDER_SUFFIX_def TempFolder_create_def
        TempFolder_remove_def font_defs run_defs)

section \<open>The temporary folder\<close>

lemma collaborator_frame:
  assumes "collaborator c w = (r, w')"
  shows "temp_folders w' = temp_folders w" and "fresh_temp w' = fresh_temp w"
  using assms by (auto simp: collaborator_def split: option.splits)

lemma QFile_copy_frame: "temp_folders (snd (QFile_copy a b w)) = temp_folders w"
  by (simp add: QFile_copy_def)

lemma CreateEncryptionXML_frame:
  assumes "CreateEncryptionXML d w = (r, w')"
  shows "temp_folders w' = temp_folders w"
proof (cases "tmpfile_opens w")
  case False
  with assms show ?thesis by (simp add: CreateEncryptionXML_def)
next
  case True
  obtain r1 w1 where c: "collaborator ''EncryptionXmlWriter::WriteXML'' w = (r1, w1)"
    by (cases "collaborator ''EncryptionXmlWriter::WriteXML'' w")
  note f1 = collaborator_frame(1) [OF c]
  show ?thesis
  proof (cases r1)
    case (Inl e)
    with assms True c f1 show ?thesis by (simp add: CreateEncryptionXML_def)
  next
    case (Inr u)
    with assms True c
    have "w' = snd (QFile_copy (tmpfile_name w1) (d @ ''/'' @ ENCRYPTION_XML_FILE_NAME) w1)"
      by (simp add: CreateEncryptionXML_def split: prod.splits)
    with f1 show ?thesis by (simp add: QFile_copy_frame)
  qed
qed

lemma CreatePublication_frame:
  assumes "CreatePublication b d w = (r, w')"
  shows "temp_folders w' = temp_folders w"
proof -
  obtain r1 w1 where c: "collaborator ''Utility::CopyFiles'' w = (r1, w1)"
    by (cases "collaborator ''Utility::CopyFiles'' w")
  note f1 = collaborator_frame(1) [OF c]
  show ?thesis
  proof (cases r1)
    case (Inl e)
    with assms c f1 show ?thesis by (simp add: CreatePublication_def)
  next
    case (Inr u)
    show ?thesis
    proof (cases "HasObfuscatedFonts b")
      case True
      with assms c Inr have "CreateEncryptionXML (d @ METAINF_FOLDER_SUFFIX) w1 = (r, w')"
        by (simp add: CreatePublication_def)
      from CreateEncryptionXML_frame [OF this] f1 show ?thesis by simp
    next
      case False
      with assms c Inr f1 show ?thesis by (simp add: CreatePublication_def)
    qed
  qed
qed

lemma ObfuscateFonts_frame:
  assumes "ObfuscateFonts A b d w = (r, w')"
  shows "temp_folders w' = temp_folders w"
proof -
  from assms have
    "font_loop A (UUIDIdentifierValue b) (PublicationIdentifier b) d (FontResources b) w = (r, w')"
    by (simp add: ObfuscateFonts_def)
  from font_loop_calls [OF this] show ?thesis by blast
qed

lemma SaveFolder_frame:
  assumes "SaveFolderAsEpubToLocation fuel d f w = Some (r, w')"
  shows "temp_folders w' = temp_folders w"
  using SaveFolder_log [OF assms] by blast

lemma WriteBook_scope_frame:
  assumes "WriteBook_scope fuel A f b path w = Some (r, w')"
  shows "temp_folders w' = temp_folders w"
proof -
  obtain r1 w1 where p: "CreatePublication b path w = (r1, w1)"
    by (cases "CreatePublication b path w")
  note f1 = CreatePublication_frame [OF p]
  show ?thesis
  proof (cases r1)
    case (Inl e)
    with assms p f1 show ?thesis by (simp add: WriteBook_scope_def)
  next
    case (Inr u)
    define step where "step = (if HasObfuscatedFonts b then ObfuscateFonts A b path w1 else (Inr (), w1))"
    obtain r2 w2 where o: "step = (r2, w2)" by (cases step)
    then have f2: "temp_folders w2 = temp_folders w1"
      by (auto simp: step_def dest: ObfuscateFonts_frame split: if_splits)
    show ?thesis
    proof (cases r2)
      case (Inl e)
      with assms p Inr o f1 f2 show ?thesis
        by (simp add: WriteBook_scope_def step_def)
    next
      case i2: (Inr u2)
      with assms p Inr o have "SaveFolderAsEpubToLocation fuel path f w2 = Some (r, w')"
        by (simp add: WriteBook_scope_def step_def)
      from SaveFolder_frame [OF this] f1 f2 show ?thesis by simp
    qed
  qed
qed

text \<open>
  C9. Whenever the export returns, with success or with an exception of any step, the
  temporary folder that it created is gone: the temporary folders are the ones that were
  there before the call. The folder is fresh, that is, its path is not the path of a
  temporary folder that exists already.
\<close>

theorem temp_folder_removed:
  assumes "WriteBook fuel A f b w = Some (r, w')" and "fresh_temp w \<notin> temp_folders w"
  shows "temp_folders w' = temp_folders w \<and> fresh_temp w \<notin> temp_folders w'"
proof -
  define s1 where "s1 = (if HasObfuscatedFonts b
            then collaborator ''OPFResource::EnsureUUIDIdentifierPresent'' w
            else (Inr (), w))"
  obtain r1 w1 where c1: "s1 = (r1, w1)" by (cases s1)
  then have f1: "temp_folders w1 = temp_folders w" "fresh_temp w1 = fresh_temp w"
    by (auto simp: s1_def dest: collaborator_frame split: if_splits)
  have "temp_folders w' = temp_folders w"
  proof (cases r1)
    case (Inl e)
    with assms(1) c1 f1 show ?thesis by (simp add: WriteBook_def s1_def)
  next
    case i1: (Inr u1)
    obtain r2 w2 where c2: "collaborator ''OPFResource::AddSigilVersionMeta'' w1 = (r2, w2)"
      by (cases "collaborator ''OPFResource::AddSigilVersionMeta'' w1")
    note f2 = collaborator_frame [OF c2]
    show ?thesis
    proof (cases r2)
      case (Inl e)
      with assms(1) c1 i1 c2 f1 f2 show ?thesis by (simp add: WriteBook_def s1_def)
    next
      case i2: (Inr u2)
      obtain r3 w3 where c3: "collaborator ''Book::SaveAllResourcesToDisk'' w2 = (r3, w3)"
        by (cases "collaborator ''Book::SaveAllResourcesToDisk'' w2")
      note f3 = collaborator_frame [OF c3]
      show ?thesis
      proof (cases r3)
        case (Inl e)
        with assms(1) c1 i1 c2 i2 c3 f1 f2 f3 show ?thesis by (simp add: WriteBook_def s1_def)
      next
        case i3: (Inr u3)
        define path where "path = fresh_temp w3"
        define w4 where "w4 = w3\<lparr>temp_folders := insert path (temp_folders w3)\<rparr>"
        have p: "path = fresh_temp w" using f1 f2 f3 by (simp add: path_def)
        from assms(1) c1 i1 c2 i2 c3 i3 obtain w5 where
          sc: "WriteBook_scope fuel A f b path w4 = Some (r, w5)"
          and w': "w' = TempFolder_remove path w5"
          by (auto simp: WriteBook_def s1_def TempFolder_create_def path_def w4_def
              split: option.splits)
        from WriteBook_scope_frame [OF sc]
        have "temp_folders w5 = insert path (temp_folders w3)" by (simp add: w4_def)
        with w' have "temp_folders w' = temp_folders w3 - {path}"
          by (simp add: TempFolder_remove_def)
        with assms(2) p f1 f2 f3 show ?thesis by simp
      qed
    qed
  qed
  with assms(2) show ?thesis by simp
qed

lemma run_export_noarchive_returns:
  "run_export_noarchive =
     Some (Inl (CannotOpenFile ''/out/b.epub'' None), snd (the run_export_noarchive))"
  by (simp add: run_export_noarchive_def world_noarchive_def WriteBook_def WriteBook_scope_def
        CreatePublication_def CreateEncryptionXML_def collaborator_def QFile_copy_def
        ENCRYPTION_XML_FILE_NAME_def METAINF_FOLDER_SUFFIX_def TempFolder_create_def
        TempFolder_remove_def font_defs SaveFolderAsEpubToLocation_def zipOpen64_def)

theorem temp_folder_removed_witness:
  "run_export_noarchive =
     Some (Inl (CannotOpenFile ''/out/b.epub'' None), snd (the run_export_noarchive)) \<and>
   fresh_temp world_noarchive \<notin> temp_folders world_noarchive \<and>
   temp_folders (snd (the run_export_noarchive)) = {}"
proof -
  have r: "WriteBook (Suc 0) ''http://ns.adobe.com/pdf/enc#RC'' ''/out/b.epub'' book0
       world_noarchive =
     Some (Inl (CannotOpenFile ''/out/b.epub'' None), snd (the run_export_noarchive))"
    using run_export_noarchive_returns by (simp add: run_export_noarchive_def)
  have h: "fresh_temp world_noarchive \<notin> temp_folders world_noarchive"
    by (simp add: world_noarchive_def world0_def)
  from temp_folder_removed [OF r h] h show ?thesis
    using run_export_noarchive_returns by (simp add: world_noarchive_def world0_def)
qed

end
